theory Spec2Isabelle
  imports Main
begin

section \<open>The input stream\<close>

text \<open>
  The parser reads from a Go \<^verbatim>\<open>bufio.Reader\<close> wrapped around an in-memory
  string. The model keeps the bytes not yet read: a \<^typ>\<open>string\<close> (a list of 8-bit
  \<^typ>\<open>char\<close>s). End of input is the empty list; the only read error such a stream
  gives is \<^verbatim>\<open>io.EOF\<close>. A rune is a Unicode code point, a natural number.
\<close>

type_synonym rune = nat

datatype error =
    EOF
  | ErrInvalidSyntax
  | ErrUnexpectedEOF
  | ErrInvalidNumValue
  | errInvalidInitialCharInBareIdent
  | errInvalidBareIdent
  | errUnexpectedSemicolon
  | errUnexpectedRightBracket
  | errUnexpectedLineCont
  | errUnexpectedSlashdash
  | errUnexpectedBareIdentifier
  | errUnexpectedTokenAfterValue
  | errUnexpectedTokenAfterIdentifier
  | errSignificantInCont
  | Panic

definition RuneError :: rune where
  "RuneError = 0xFFFD"

text \<open>
  \<^verbatim>\<open>utf8.DecodeRune\<close> of the Go library: the first rune of a byte slice and its
  width in bytes. An invalid or truncated encoding is \<open>(RuneError, 1)\<close>.
\<close>

fun DecodeRune :: "string \<Rightarrow> rune \<times> nat" where
  "DecodeRune [] = (RuneError, 0)"
| "DecodeRune (c # cs) =
     (let p0 = (of_char c :: nat) in
      if p0 < 0x80 then (p0, 1)
      else if p0 < 0xC2 \<or> 0xF4 < p0 then (RuneError, 1)
      else
        let sz = (if p0 < 0xE0 then 2 else if p0 < 0xF0 then 3 else (4 :: nat));
            lo = (if p0 = 0xE0 then 0xA0 else if p0 = 0xF0 then 0x90 else (0x80 :: nat));
            hi = (if p0 = 0xED then 0x9F else if p0 = 0xF4 then 0x8F else (0xBF :: nat))
        in
          if length (c # cs) < sz then (RuneError, 1)
          else
            let b1 = (of_char (cs ! 0) :: nat) in
            if b1 < lo \<or> hi < b1 then (RuneError, 1)
            else if sz \<le> 2 then ((p0 mod 0x20) * 0x40 + b1 mod 0x40, 2)
            else
              let b2 = (of_char (cs ! 1) :: nat) in
              if b2 < 0x80 \<or> 0xBF < b2 then (RuneError, 1)
              else if sz \<le> 3 then
                ((p0 mod 0x10) * 0x1000 + (b1 mod 0x40) * 0x40 + b2 mod 0x40, 3)
              else
                let b3 = (of_char (cs ! 2) :: nat) in
                if b3 < 0x80 \<or> 0xBF < b3 then (RuneError, 1)
                else
                  ((p0 mod 8) * 0x40000 + (b1 mod 0x40) * 0x1000 + (b2 mod 0x40) * 0x40
                     + b3 mod 0x40, 4))"

text \<open>\<^verbatim>\<open>utf8.RuneLen\<close>: the bytes the encoding of a rune takes, -1 for no rune.\<close>

definition RuneLen :: "rune \<Rightarrow> int" where
  "RuneLen ch =
     (if ch < 0x80 then 1
      else if ch < 0x800 then 2
      else if 0xD800 \<le> ch \<and> ch \<le> 0xDFFF then -1
      else if ch < 0x10000 then 3
      else if ch \<le> 0x10FFFF then 4
      else -1)"

text \<open>
  \<^verbatim>\<open>bufio.Reader.ReadRune\<close> on the unread bytes: \<open>None\<close> is \<^verbatim>\<open>io.EOF\<close>,
  otherwise the rune and its width.
\<close>

definition ReadRune :: "string \<Rightarrow> (rune \<times> nat) option" where
  "ReadRune bs = (case bs of [] \<Rightarrow> None | c # cs \<Rightarrow> Some (DecodeRune bs))"

section \<open>The positioned reader\<close>

record reader =
  input :: string
  line :: int
  pos :: int
  depth :: int

definition wrapReader :: "string \<Rightarrow> reader" where
  "wrapReader s = \<lparr>input = s, line = 1, pos = 0, depth = 0\<rparr>"

section \<open>Values and nodes\<close>

text \<open>
  Modelled from the spec: the declarations of \<^verbatim>\<open>Value\<close> and \<^verbatim>\<open>Node\<close> and their
  methods are not among the source files. The spec's data model gives a value as a tagged
  scalar with an optional type hint, and a node as an optional type hint, a name, ordered
  arguments, a key to value mapping where the last write wins, and ordered children. A
  float is kept as an exact decimal: mantissa and power of ten.
\<close>

datatype payload =
    StringVal string
  | IntegerVal int
  | FloatVal int int
  | BoolVal bool
  | NullVal

record Value =
  Data :: payload
  TypeHint :: "string option"

definition NewStringValue :: "string \<Rightarrow> string option \<Rightarrow> Value" where
  "NewStringValue s hint = \<lparr>Data = StringVal s, TypeHint = hint\<rparr>"

definition NewIntegerValue :: "int \<Rightarrow> string option \<Rightarrow> Value" where
  "NewIntegerValue i hint = \<lparr>Data = IntegerVal i, TypeHint = hint\<rparr>"

definition NewFloatValue :: "int \<Rightarrow> int \<Rightarrow> string option \<Rightarrow> Value" where
  "NewFloatValue m e hint = \<lparr>Data = FloatVal m e, TypeHint = hint\<rparr>"

definition NewBoolValue :: "bool \<Rightarrow> string option \<Rightarrow> Value" where
  "NewBoolValue b hint = \<lparr>Data = BoolVal b, TypeHint = hint\<rparr>"

definition NewNullValue :: "string option \<Rightarrow> Value" where
  "NewNullValue hint = \<lparr>Data = NullVal, TypeHint = hint\<rparr>"

datatype Node =
  Node (NodeTypeHint: "string option") (Name: string) (Args: "Value list")
    (Props: "string \<Rightarrow> Value option") (Children: "Node list")

definition NewNode :: "string \<Rightarrow> Node" where
  "NewNode name = Node None name [] (\<lambda>k. None) []"

definition AddArg :: "Node \<Rightarrow> Value \<Rightarrow> Node" where
  "AddArg n v = Node (NodeTypeHint n) (Name n) (Args n @ [v]) (Props n) (Children n)"

definition AddArgValue :: "Node \<Rightarrow> Value \<Rightarrow> Node" where
  "AddArgValue n v = Node (NodeTypeHint n) (Name n) (Args n @ [v]) (Props n) (Children n)"

definition SetPropValue :: "Node \<Rightarrow> string \<Rightarrow> Value \<Rightarrow> Node" where
  "SetPropValue n k v =
     Node (NodeTypeHint n) (Name n) (Args n) ((Props n)(k \<mapsto> v)) (Children n)"

definition AddChild :: "Node \<Rightarrow> Node \<Rightarrow> Node" where
  "AddChild n c = Node (NodeTypeHint n) (Name n) (Args n) (Props n) (Children n @ [c])"

definition setTypeHint :: "Node \<Rightarrow> string option \<Rightarrow> Node" where
  "setTypeHint n h = Node h (Name n) (Args n) (Props n) (Children n)"

definition setName :: "Node \<Rightarrow> string \<Rightarrow> Node" where
  "setName n s = Node (NodeTypeHint n) s (Args n) (Props n) (Children n)"

section \<open>What the source files leave out\<close>

text \<open>
  \<^verbatim>\<open>read_node.go\<close> and the reader call functions of the package that are not among
  the source files: the character classes \<^verbatim>\<open>isNewLine\<close>, \<^verbatim>\<open>isWhitespace\<close> and
  \<^verbatim>\<open>isValidValueTerminator\<close>, and the lexical scanners \<^verbatim>\<open>readMaybeTypeHint\<close>,
  \<^verbatim>\<open>readIdentifier\<close> and \<^verbatim>\<open>readValue\<close>. The functions that are in the source take
  them as a parameter, the record \<open>lexer\<close>, so that what is proved of the code holds
  whatever those functions are. A scanner takes the reader and gives its results, its
  error (\<open>None\<close> is Go's \<^verbatim>\<open>nil\<close>) and the reader it leaves.
\<close>

datatype stopMode = stopModeFreestanding | stopModeSemicolon | stopModeEquals

record lexer =
  isNewLine :: "rune \<Rightarrow> bool"
  isWhitespace :: "rune \<Rightarrow> bool"
  isValidValueTerminator :: "rune \<Rightarrow> bool"
  readMaybeTypeHint :: "reader \<Rightarrow> string option \<times> error option \<times> reader"
  readIdentifier :: "stopMode \<Rightarrow> reader \<Rightarrow> string \<times> error option \<times> bool \<times> reader"
  readValue :: "reader \<Rightarrow> Value \<times> error option \<times> reader"

text \<open>
  Modelled from the spec: the byte sequences \<^verbatim>\<open>charsSlashDash\<close>, \<^verbatim>\<open>charsCRLF\<close>,
  \<^verbatim>\<open>charsStartComment\<close>, \<^verbatim>\<open>charsStartCommentBlock\<close> and \<^verbatim>\<open>charsEndCommentBlock\<close>
  are declared outside the source files; the spec writes them \<^verbatim>\<open>/-\<close>, carriage return
  then line feed, \<^verbatim>\<open>//\<close>, \<^verbatim>\<open>/*\<close> and \<^verbatim>\<open>*/\<close>.
\<close>

definition charsSlashDash :: string where
  "charsSlashDash = ''/-''"

definition charsCRLF :: string where
  "charsCRLF = [CHR 0x0D, CHR 0x0A]"

definition charsStartComment :: string where
  "charsStartComment = ''//''"

definition charsStartCommentBlock :: string where
  "charsStartCommentBlock = ''/*''"

definition charsEndCommentBlock :: string where
  "charsEndCommentBlock = ''*/''"

section \<open>Reader operations\<close>

text \<open>
  \<^verbatim>\<open>readRune\<close>: the rune, the error and the reader after the call. After a carriage
  return the next rune is read too; it is put back only when it is a line feed.
\<close>

definition readRune :: "lexer \<Rightarrow> reader \<Rightarrow> rune \<times> error option \<times> reader" where
  "readRune lx r =
     (case ReadRune (input r) of
        None \<Rightarrow> (0, Some EOF, r)
      | Some (ch, sz) \<Rightarrow>
          let r1 = r\<lparr>input := drop sz (input r)\<rparr> in
          if isNewLine lx ch then
            (if ch = 0x0D then
               (case ReadRune (input r1) of
                  None \<Rightarrow> (ch, None, r1)
                | Some (next, sz') \<Rightarrow>
                    let r2 = r1\<lparr>input := drop sz' (input r1)\<rparr> in
                    if next = 0x0A then (ch, None, r1)
                    else (ch, None, r2\<lparr>line := line r2 + 1, pos := 0\<rparr>))
             else (ch, None, r1\<lparr>line := line r1 + 1, pos := 0\<rparr>))
          else (ch, None, r1\<lparr>pos := pos r1 + 1\<rparr>))"

fun discardRunes :: "lexer \<Rightarrow> nat \<Rightarrow> reader \<Rightarrow> reader" where
  "discardRunes lx 0 r = r"
| "discardRunes lx (Suc n) r = discardRunes lx n (snd (snd (readRune lx r)))"

text \<open>\<^verbatim>\<open>readByte\<close>: at end of input Go's \<^verbatim>\<open>ReadByte\<close> gives the byte 0 and the error,
  and the column is still incremented.\<close>

definition readByte :: "reader \<Rightarrow> char \<times> error option \<times> reader" where
  "readByte r =
     (case input r of
        [] \<Rightarrow> (CHR 0x00, Some EOF, r\<lparr>pos := pos r + 1\<rparr>)
      | b # bs \<Rightarrow>
          (b, None,
           if b = CHR 0x0A \<or> b = CHR 0x0D
           then r\<lparr>input := bs, line := line r + 1, pos := 0\<rparr>
           else r\<lparr>input := bs, pos := pos r + 1\<rparr>))"

definition discardByte :: "reader \<Rightarrow> reader" where
  "discardByte r = snd (snd (readByte r))"

text \<open>\<^verbatim>\<open>peekBytes\<close> is \<^verbatim>\<open>bufio.Reader.Peek\<close>: short input gives what is left and
  \<^verbatim>\<open>io.EOF\<close>. The counts the parser asks for (at most 4) fit every buffer.\<close>

definition peekBytes :: "nat \<Rightarrow> reader \<Rightarrow> string \<times> error option" where
  "peekBytes count r =
     (if count \<le> length (input r) then (take count (input r), None)
      else (input r, Some EOF))"

text \<open>The line and column bookkeeping that \<^verbatim>\<open>readBytes\<close> and \<^verbatim>\<open>discardBytes\<close> both
  run over a slice of bytes, with its flag \<^verbatim>\<open>wasCR\<close>.\<close>

fun countBytes :: "bool \<Rightarrow> string \<Rightarrow> reader \<Rightarrow> bool \<times> reader" where
  "countBytes wasCR [] r = (wasCR, r)"
| "countBytes wasCR (b # bs) r =
     (if b = CHR 0x0A \<and> \<not> wasCR then countBytes False bs (r\<lparr>line := line r + 1, pos := 0\<rparr>)
      else if b = CHR 0x0D then countBytes True bs (r\<lparr>line := line r + 1, pos := 0\<rparr>)
      else countBytes False bs (r\<lparr>pos := pos r + 1\<rparr>))"

text \<open>
  \<^verbatim>\<open>readBytes\<close>: each turn of its loop is one \<^verbatim>\<open>Read\<close> into the slice of \<open>cap\<close>
  bytes, which gives the unread bytes up to that length, or \<^verbatim>\<open>io.EOF\<close> when none is
  left. The bytes read are not part of the result here: no caller in the source uses them.
\<close>

function readBytes_loop :: "nat \<Rightarrow> nat \<Rightarrow> bool \<Rightarrow> reader \<Rightarrow> error option \<times> reader" where
  "readBytes_loop cap count wasCR r =
     (if count > 0 then
        (if input r = [] \<or> cap = 0 then (Some EOF, r)
         else
           let n = min cap (length (input r));
               (wasCR', r') = countBytes wasCR (take n (input r)) r
           in readBytes_loop cap (count - n) wasCR' (r'\<lparr>input := drop n (input r)\<rparr>))
      else (None, r))"
  by pat_completeness auto
termination
  by (relation "measure (\<lambda>(cap, count, wasCR, r). count)") (auto simp: min_def)

definition readBytes :: "nat \<Rightarrow> reader \<Rightarrow> error option \<times> reader" where
  "readBytes count r = readBytes_loop count count False r"

definition discardBytes :: "nat \<Rightarrow> reader \<Rightarrow> reader" where
  "discardBytes count r =
     (case peekBytes count r of
        (bytes, Some err) \<Rightarrow> snd (readBytes count r)
      | (bytes, None) \<Rightarrow> (snd (countBytes False bytes r))\<lparr>input := drop count (input r)\<rparr>)"

definition peekRune :: "reader \<Rightarrow> rune \<times> error option" where
  "peekRune r =
     (case ReadRune (input r) of
        None \<Rightarrow> (0, Some EOF)
      | Some (ch, sz) \<Rightarrow> (ch, None))"

definition isNext :: "string \<Rightarrow> reader \<Rightarrow> bool \<times> error option" where
  "isNext expected r =
     (case peekBytes (length expected) r of
        (next, Some err) \<Rightarrow> (False, Some err)
      | (next, None) \<Rightarrow> (next = expected, None))"

declare readBytes_loop.simps [simp del]

lemma input_countBytes: "input (snd (countBytes wasCR bs r)) = input r"
  by (induction bs arbitrary: wasCR r) auto

lemma depth_countBytes: "depth (snd (countBytes wasCR bs r)) = depth r"
  by (induction bs arbitrary: wasCR r) auto

lemma input_readBytes_loop:
  "0 < count \<Longrightarrow> length (input r) \<le> cap \<Longrightarrow> input (snd (readBytes_loop cap count wasCR r)) = []"
proof (induction cap count wasCR r rule: readBytes_loop.induct)
  case (1 cap count wasCR r)
  show ?case
  proof (cases "input r = [] \<or> cap = 0")
    case True
    with "1.prems" show ?thesis
      by (subst readBytes_loop.simps) auto
  next
    case False
    define n where "n = min cap (length (input r))"
    obtain w' r' where cb: "countBytes wasCR (take n (input r)) r = (w', r')"
      by (cases "countBytes wasCR (take n (input r)) r")
    have n: "n = length (input r)"
      using "1.prems" by (simp add: n_def)
    let ?r2 = "r'\<lparr>input := drop n (input r)\<rparr>"
    have unfold: "readBytes_loop cap count wasCR r = readBytes_loop cap (count - n) w' ?r2"
      using False "1.prems" cb by (subst readBytes_loop.simps) (simp add: n_def Let_def)
    have empty: "input ?r2 = []"
      by (simp add: n)
    show ?thesis
    proof (cases "0 < count - n")
      case True
      then show ?thesis
        unfolding unfold by (subst readBytes_loop.simps) (simp add: empty)
    next
      case False
      then show ?thesis
        unfolding unfold by (subst readBytes_loop.simps) (simp add: empty)
    qed
  qed
qed

lemma input_discardBytes: "input (discardBytes count r) = drop count (input r)"
proof (cases "count \<le> length (input r)")
  case True
  then show ?thesis
    by (simp add: discardBytes_def peekBytes_def input_countBytes)
next
  case False
  then have "input (snd (readBytes_loop count count False r)) = []"
    by (intro input_readBytes_loop) auto
  with False show ?thesis
    by (simp add: discardBytes_def peekBytes_def readBytes_def)
qed

lemma input_discardByte: "input (discardByte r) = tl (input r)"
  by (simp add: discardByte_def readByte_def split: list.splits)

lemma peekRune_ok_nonempty: "peekRune r = (ch, None) \<Longrightarrow> input r \<noteq> []"
  by (auto simp: peekRune_def ReadRune_def split: list.splits)

lemma isNext_true_length: "isNext expected r = (True, None) \<Longrightarrow> length expected \<le> length (input r)"
  by (auto simp: isNext_def peekBytes_def split: if_splits)

lemma discardByte_shrinks:
  "(ch, None) = peekRune r \<Longrightarrow> length (input (discardByte r)) < length (input r)"
  using peekRune_ok_nonempty [of r ch] by (cases "input r") (auto simp: input_discardByte)

section \<open>Skipping what is not significant\<close>

function skipUntilNewLine :: "lexer \<Rightarrow> bool \<Rightarrow> reader \<Rightarrow> error option \<times> reader" where
  "skipUntilNewLine lx afterBreak r =
     (if isNext charsCRLF r = (True, None)
      then (None, if afterBreak then discardBytes 2 r else discardByte r)
      else
        (case peekRune r of
           (ch, Some err) \<Rightarrow> (if err = EOF then (None, r) else (Some err, r))
         | (ch, None) \<Rightarrow>
             if isNewLine lx ch then (None, if afterBreak then discardByte r else r)
             else skipUntilNewLine lx afterBreak (discardByte r)))"
  by pat_completeness auto
termination
  by (relation "measure (\<lambda>(lx, afterBreak, r). length (input r))")
    (auto simp: discardByte_shrinks)

declare skipUntilNewLine.simps [simp del]

lemma skipUntilNewLine_length:
  "length (input (snd (skipUntilNewLine lx afterBreak r))) \<le> length (input r)"
proof (induction lx afterBreak r rule: skipUntilNewLine.induct)
  case (1 lx afterBreak r)
  show ?case
  proof (cases "isNext charsCRLF r = (True, None)")
    case True
    then show ?thesis
      by (subst skipUntilNewLine.simps) (simp add: input_discardBytes input_discardByte)
  next
    case False
    obtain ch perr where pk: "peekRune r = (ch, perr)"
      by (cases "peekRune r")
    show ?thesis
    proof (cases "perr = None \<and> \<not> isNewLine lx ch")
      case True
      then have "length (input (snd (skipUntilNewLine lx afterBreak (discardByte r))))
                \<le> length (input (discardByte r))"
        using False pk by (intro "1.IH") auto
      then have "length (input (snd (skipUntilNewLine lx afterBreak (discardByte r))))
                \<le> length (input r)"
        by (simp add: input_discardByte)
      with True False pk show ?thesis
        by (subst skipUntilNewLine.simps) simp
    next
      case stop: False
      with False pk show ?thesis
        by (subst skipUntilNewLine.simps) (auto simp: input_discardByte split: option.splits)
    qed
  qed
qed

text \<open>A line break at the cursor is consumed when \<open>afterBreak\<close> is set.\<close>

lemma skipUntilNewLine_at_break:
  assumes "peekRune r = (ch, None)" and "isNewLine lx ch"
  shows "length (input (snd (skipUntilNewLine lx True r))) < length (input r)"
proof (cases "isNext charsCRLF r = (True, None)")
  case True
  then have "2 \<le> length (input r)"
    using isNext_true_length [of charsCRLF r] by (simp add: charsCRLF_def)
  with True show ?thesis
    by (subst skipUntilNewLine.simps) (simp add: input_discardBytes)
next
  case False
  with assms show ?thesis
    using discardByte_shrinks [of ch r]
    by (subst skipUntilNewLine.simps) simp
qed

text \<open>
  The loop of \<^verbatim>\<open>readUntilSignificant\<close> labelled \<^verbatim>\<open>inner\<close>, entered after the two
  bytes that open a block comment: \<open>level\<close> is its counter \<^verbatim>\<open>depth\<close>. It ends with an
  error, or with \<open>None\<close> where the source continues the outer loop.
\<close>

function readUntilSignificant_inner :: "int \<Rightarrow> reader \<Rightarrow> error option \<times> reader" where
  "readUntilSignificant_inner level r =
     (case isNext charsStartCommentBlock r of
        (start, Some err) \<Rightarrow> (Some err, r)
      | (start, None) \<Rightarrow>
          if start then readUntilSignificant_inner (level + 1) (discardBytes 2 r)
          else
            (case isNext charsEndCommentBlock r of
               (end', Some err) \<Rightarrow> (Some err, r)
             | (end', None) \<Rightarrow>
                 if end' then
                   (if level - 1 \<le> 0 then (None, discardBytes 2 r)
                    else readUntilSignificant_inner (level - 1) (discardBytes 2 r))
                 else readUntilSignificant_inner level (discardByte r)))"
  by pat_completeness auto
termination
  by (relation "measure (\<lambda>(level, r). length (input r))")
    (auto simp: input_discardBytes input_discardByte isNext_def peekBytes_def
        charsStartCommentBlock_def charsEndCommentBlock_def split: if_splits)

declare readUntilSignificant_inner.simps [simp del]

lemma readUntilSignificant_inner_length:
  "length (input (snd (readUntilSignificant_inner level r))) \<le> length (input r)"
proof (induction level r rule: readUntilSignificant_inner.induct)
  case (1 level r)
  obtain s se where s: "isNext charsStartCommentBlock r = (s, se)"
    by (cases "isNext charsStartCommentBlock r")
  obtain e ee where e: "isNext charsEndCommentBlock r = (e, ee)"
    by (cases "isNext charsEndCommentBlock r")
  consider (err1) "se \<noteq> None" | (opens) "se = None" "s"
    | (err2) "se = None" "\<not> s" "ee \<noteq> None"
    | (closes) "se = None" "\<not> s" "ee = None" "e"
    | (plain) "se = None" "\<not> s" "ee = None" "\<not> e"
    by blast
  then show ?case
  proof cases
    case err1
    with s show ?thesis
      by (subst readUntilSignificant_inner.simps) auto
  next
    case opens
    have "length (input (snd (readUntilSignificant_inner (level + 1) (discardBytes 2 r))))
            \<le> length (input (discardBytes 2 r))"
      using s opens by (intro "1.IH"(1)[of s se]) auto
    with s opens show ?thesis
      by (subst readUntilSignificant_inner.simps) (simp add: input_discardBytes)
  next
    case err2
    with s e show ?thesis
      by (subst readUntilSignificant_inner.simps) auto
  next
    case closes
    show ?thesis
    proof (cases "level - 1 \<le> 0")
      case True
      with s e closes show ?thesis
        by (subst readUntilSignificant_inner.simps) (simp add: input_discardBytes)
    next
      case False
      have "length (input (snd (readUntilSignificant_inner (level - 1) (discardBytes 2 r))))
              \<le> length (input (discardBytes 2 r))"
        using s e closes False by (intro "1.IH"(2)[of s se e ee]) auto
      with s e closes False show ?thesis
        by (subst readUntilSignificant_inner.simps) (simp add: input_discardBytes)
    qed
  next
    case plain
    have "length (input (snd (readUntilSignificant_inner level (discardByte r))))
            \<le> length (input (discardByte r))"
      using s e plain by (intro "1.IH"(3)[of s se e ee]) auto
    with s e plain show ?thesis
      by (subst readUntilSignificant_inner.simps) (simp add: input_discardByte)
  qed
qed

lemma RuneLen_cases: "RuneLen ch = -1 \<or> RuneLen ch = 1 \<or> RuneLen ch = 2 \<or> RuneLen ch = 3 \<or> RuneLen ch = 4"
  by (simp add: RuneLen_def)

lemma discardBytes_RuneLen_shrinks:
  assumes "(ch, None) = peekRune r" and "\<not> RuneLen ch < 0"
  shows "length (input (discardBytes (nat (RuneLen ch)) r)) < length (input r)"
proof -
  have "input r \<noteq> []"
    using assms(1) peekRune_ok_nonempty [of r ch] by simp
  moreover have "0 < nat (RuneLen ch)"
    using assms(2) RuneLen_cases [of ch] by auto
  ultimately show ?thesis
    by (simp add: input_discardBytes)
qed
lemma inner_shrinks:
  assumes "isNext charsStartCommentBlock r = (True, None)"
    and "(e, r') = readUntilSignificant_inner level (discardBytes 2 r)"
  shows "length (input r') < length (input r)"
proof -
  have "length (input r') \<le> length (input (discardBytes 2 r))"
    using readUntilSignificant_inner_length [of level "discardBytes 2 r"] assms(2)
    by (metis snd_conv)
  moreover have "2 \<le> length (input r)"
    using assms(1) isNext_true_length [of charsStartCommentBlock r]
    by (simp add: charsStartCommentBlock_def)
  ultimately show ?thesis
    by (simp add: input_discardBytes)
qed

lemma skip_break_shrinks:
  assumes "(ch, None) = peekRune r" and "isNewLine lx ch"
    and "(e, r') = skipUntilNewLine lx True r"
  shows "length (input r') < length (input r)"
proof -
  have "length (input (snd (skipUntilNewLine lx True r))) < length (input r)"
    using assms(1,2) by (intro skipUntilNewLine_at_break [of r ch]) auto
  moreover have "snd (skipUntilNewLine lx True r) = r'"
    using assms(3) by (metis snd_conv)
  ultimately show ?thesis
    by simp
qed

text \<open>
  The loop of \<^verbatim>\<open>readUntilSignificant\<close> labelled \<^verbatim>\<open>outer\<close>, with its local variable
  \<^verbatim>\<open>escapedLine\<close>. A negative \<^verbatim>\<open>utf8.RuneLen\<close> would make \<^verbatim>\<open>discardBytes\<close> allocate
  a slice of negative length, which panics in Go.
\<close>

function readUntilSignificant_outer ::
  "lexer \<Rightarrow> bool \<Rightarrow> bool \<Rightarrow> reader \<Rightarrow> error option \<times> reader" where
  "readUntilSignificant_outer lx insideNode escapedLine r =
     (case peekRune r of
        (ch, Some err) \<Rightarrow> (Some err, r)
      | (ch, None) \<Rightarrow>
          if isWhitespace lx ch then
            (if RuneLen ch < 0 then (Some Panic, r)
             else readUntilSignificant_outer lx insideNode escapedLine
                    (discardBytes (nat (RuneLen ch)) r))
          else if ch = 0x5C \<and> insideNode then
            readUntilSignificant_outer lx insideNode True (discardByte r)
          else if isNext charsStartComment r = (True, None) then
            skipUntilNewLine lx True (discardBytes 2 r)
          else if isNext charsStartCommentBlock r = (True, None) then
            (case readUntilSignificant_inner 1 (discardBytes 2 r) of
               (Some err, r') \<Rightarrow> (Some err, r')
             | (None, r') \<Rightarrow> readUntilSignificant_outer lx insideNode escapedLine r')
          else if escapedLine then
            (if isNewLine lx ch then
               (case skipUntilNewLine lx True r of
                  (Some err, r') \<Rightarrow> (Some err, r')
                | (None, r') \<Rightarrow> readUntilSignificant_outer lx insideNode False r')
             else (Some errSignificantInCont, r))
          else (None, r))"
  by pat_completeness auto
termination
  by (relation "measure (\<lambda>(lx, insideNode, escapedLine, r). length (input r))")
    (auto simp: discardBytes_RuneLen_shrinks discardByte_shrinks
      intro: inner_shrinks skip_break_shrinks)

declare readUntilSignificant_outer.simps [simp del]

definition readUntilSignificant :: "lexer \<Rightarrow> reader \<Rightarrow> bool \<Rightarrow> error option \<times> reader" where
  "readUntilSignificant lx r insideNode = readUntilSignificant_outer lx insideNode False r"

subsection \<open>One turn of each loop\<close>

text \<open>The equations of the loops, one for each way a turn can go, with the tests of that
  turn as premises. They compute the loops on a given input.\<close>

lemma readBytes_loop_done:
  "count = 0 \<Longrightarrow> readBytes_loop cap count wasCR r = (None, r)"
  by (subst readBytes_loop.simps) simp

lemma readBytes_loop_eof:
  "0 < count \<Longrightarrow> input r = [] \<or> cap = 0 \<Longrightarrow> readBytes_loop cap count wasCR r = (Some EOF, r)"
  by (subst readBytes_loop.simps) simp

lemma readBytes_loop_read:
  "0 < count \<Longrightarrow> input r \<noteq> [] \<Longrightarrow> cap \<noteq> 0 \<Longrightarrow>
   readBytes_loop cap count wasCR r =
     readBytes_loop cap (count - min cap (length (input r)))
       (fst (countBytes wasCR (take (min cap (length (input r))) (input r)) r))
       ((snd (countBytes wasCR (take (min cap (length (input r))) (input r)) r))
          \<lparr>input := drop (min cap (length (input r))) (input r)\<rparr>)"
  by (subst readBytes_loop.simps) (simp add: Let_def split: prod.splits)

lemma skipUntilNewLine_crlf:
  "isNext charsCRLF r = (True, None) \<Longrightarrow>
   skipUntilNewLine lx afterBreak r = (None, if afterBreak then discardBytes 2 r else discardByte r)"
  by (subst skipUntilNewLine.simps) simp

lemma skipUntilNewLine_error:
  "isNext charsCRLF r \<noteq> (True, None) \<Longrightarrow> snd (peekRune r) \<noteq> None \<Longrightarrow>
   skipUntilNewLine lx afterBreak r =
     (if snd (peekRune r) = Some EOF then (None, r) else (snd (peekRune r), r))"
  by (subst skipUntilNewLine.simps) (auto split: prod.splits option.splits)

lemma skipUntilNewLine_break:
  "isNext charsCRLF r \<noteq> (True, None) \<Longrightarrow> snd (peekRune r) = None \<Longrightarrow>
   isNewLine lx (fst (peekRune r)) \<Longrightarrow>
   skipUntilNewLine lx afterBreak r = (None, if afterBreak then discardByte r else r)"
  by (subst skipUntilNewLine.simps) (auto split: prod.splits option.splits)

lemma skipUntilNewLine_step:
  "isNext charsCRLF r \<noteq> (True, None) \<Longrightarrow> snd (peekRune r) = None \<Longrightarrow>
   \<not> isNewLine lx (fst (peekRune r)) \<Longrightarrow>
   skipUntilNewLine lx afterBreak r = skipUntilNewLine lx afterBreak (discardByte r)"
  by (subst skipUntilNewLine.simps) (auto split: prod.splits option.splits)

lemma inner_start_error:
  "snd (isNext charsStartCommentBlock r) \<noteq> None \<Longrightarrow>
   readUntilSignificant_inner level r = (snd (isNext charsStartCommentBlock r), r)"
  by (subst readUntilSignificant_inner.simps) (auto split: prod.splits option.splits)

lemma inner_open:
  "isNext charsStartCommentBlock r = (True, None) \<Longrightarrow>
   readUntilSignificant_inner level r = readUntilSignificant_inner (level + 1) (discardBytes 2 r)"
  by (subst readUntilSignificant_inner.simps) simp

lemma inner_end_error:
  "isNext charsStartCommentBlock r = (False, None) \<Longrightarrow>
   snd (isNext charsEndCommentBlock r) \<noteq> None \<Longrightarrow>
   readUntilSignificant_inner level r = (snd (isNext charsEndCommentBlock r), r)"
  by (subst readUntilSignificant_inner.simps) (auto split: prod.splits option.splits)

lemma inner_close_last:
  "isNext charsStartCommentBlock r = (False, None) \<Longrightarrow>
   isNext charsEndCommentBlock r = (True, None) \<Longrightarrow> level - 1 \<le> 0 \<Longrightarrow>
   readUntilSignificant_inner level r = (None, discardBytes 2 r)"
  by (subst readUntilSignificant_inner.simps) simp

lemma inner_close_nested:
  "isNext charsStartCommentBlock r = (False, None) \<Longrightarrow>
   isNext charsEndCommentBlock r = (True, None) \<Longrightarrow> \<not> level - 1 \<le> 0 \<Longrightarrow>
   readUntilSignificant_inner level r = readUntilSignificant_inner (level - 1) (discardBytes 2 r)"
  by (subst readUntilSignificant_inner.simps) simp

lemma inner_step:
  "isNext charsStartCommentBlock r = (False, None) \<Longrightarrow>
   isNext charsEndCommentBlock r = (False, None) \<Longrightarrow>
   readUntilSignificant_inner level r = readUntilSignificant_inner level (discardByte r)"
  by (subst readUntilSignificant_inner.simps) simp

lemma outer_error:
  "snd (peekRune r) \<noteq> None \<Longrightarrow>
   readUntilSignificant_outer lx insideNode escapedLine r = (snd (peekRune r), r)"
  by (subst readUntilSignificant_outer.simps;
      cases "peekRune r"; cases "readUntilSignificant_inner 1 (discardBytes 2 r)";
      cases "skipUntilNewLine lx True r")
    (auto split del: if_split split: option.splits)

lemma outer_whitespace_panic:
  "snd (peekRune r) = None \<Longrightarrow> isWhitespace lx (fst (peekRune r)) \<Longrightarrow>
   RuneLen (fst (peekRune r)) < 0 \<Longrightarrow>
   readUntilSignificant_outer lx insideNode escapedLine r = (Some Panic, r)"
  by (subst readUntilSignificant_outer.simps;
      cases "peekRune r"; cases "readUntilSignificant_inner 1 (discardBytes 2 r)";
      cases "skipUntilNewLine lx True r")
    (auto split del: if_split split: option.splits)

lemma outer_whitespace:
  "snd (peekRune r) = None \<Longrightarrow> isWhitespace lx (fst (peekRune r)) \<Longrightarrow>
   \<not> RuneLen (fst (peekRune r)) < 0 \<Longrightarrow>
   readUntilSignificant_outer lx insideNode escapedLine r =
     readUntilSignificant_outer lx insideNode escapedLine
       (discardBytes (nat (RuneLen (fst (peekRune r)))) r)"
  by (subst readUntilSignificant_outer.simps;
      cases "peekRune r"; cases "readUntilSignificant_inner 1 (discardBytes 2 r)";
      cases "skipUntilNewLine lx True r")
    (auto split del: if_split split: option.splits)

lemma outer_backslash:
  "snd (peekRune r) = None \<Longrightarrow> \<not> isWhitespace lx (fst (peekRune r)) \<Longrightarrow>
   fst (peekRune r) = 0x5C \<Longrightarrow> insideNode \<Longrightarrow>
   readUntilSignificant_outer lx insideNode escapedLine r =
     readUntilSignificant_outer lx insideNode True (discardByte r)"
  by (subst readUntilSignificant_outer.simps;
      cases "peekRune r"; cases "readUntilSignificant_inner 1 (discardBytes 2 r)";
      cases "skipUntilNewLine lx True r")
    (auto split del: if_split split: option.splits)

lemma outer_line_comment:
  "snd (peekRune r) = None \<Longrightarrow> \<not> isWhitespace lx (fst (peekRune r)) \<Longrightarrow>
   \<not> (fst (peekRune r) = 0x5C \<and> insideNode) \<Longrightarrow>
   isNext charsStartComment r = (True, None) \<Longrightarrow>
   readUntilSignificant_outer lx insideNode escapedLine r =
     skipUntilNewLine lx True (discardBytes 2 r)"
  by (subst readUntilSignificant_outer.simps;
      cases "peekRune r"; cases "readUntilSignificant_inner 1 (discardBytes 2 r)";
      cases "skipUntilNewLine lx True r")
    (auto split del: if_split split: option.splits)

lemma outer_block_comment_error:
  "snd (peekRune r) = None \<Longrightarrow> \<not> isWhitespace lx (fst (peekRune r)) \<Longrightarrow>
   \<not> (fst (peekRune r) = 0x5C \<and> insideNode) \<Longrightarrow>
   isNext charsStartComment r \<noteq> (True, None) \<Longrightarrow>
   isNext charsStartCommentBlock r = (True, None) \<Longrightarrow>
   fst (readUntilSignificant_inner 1 (discardBytes 2 r)) \<noteq> None \<Longrightarrow>
   readUntilSignificant_outer lx insideNode escapedLine r =
     readUntilSignificant_inner 1 (discardBytes 2 r)"
  by (subst readUntilSignificant_outer.simps;
      cases "peekRune r"; cases "readUntilSignificant_inner 1 (discardBytes 2 r)";
      cases "skipUntilNewLine lx True r")
    (auto split del: if_split split: option.splits)

lemma outer_block_comment:
  "snd (peekRune r) = None \<Longrightarrow> \<not> isWhitespace lx (fst (peekRune r)) \<Longrightarrow>
   \<not> (fst (peekRune r) = 0x5C \<and> insideNode) \<Longrightarrow>
   isNext charsStartComment r \<noteq> (True, None) \<Longrightarrow>
   isNext charsStartCommentBlock r = (True, None) \<Longrightarrow>
   fst (readUntilSignificant_inner 1 (discardBytes 2 r)) = None \<Longrightarrow>
   readUntilSignificant_outer lx insideNode escapedLine r =
     readUntilSignificant_outer lx insideNode escapedLine
       (snd (readUntilSignificant_inner 1 (discardBytes 2 r)))"
  by (subst readUntilSignificant_outer.simps;
      cases "peekRune r"; cases "readUntilSignificant_inner 1 (discardBytes 2 r)";
      cases "skipUntilNewLine lx True r")
    (auto split del: if_split split: option.splits)

lemma outer_escaped_break_error:
  "snd (peekRune r) = None \<Longrightarrow> \<not> isWhitespace lx (fst (peekRune r)) \<Longrightarrow>
   \<not> (fst (peekRune r) = 0x5C \<and> insideNode) \<Longrightarrow>
   isNext charsStartComment r \<noteq> (True, None) \<Longrightarrow>
   isNext charsStartCommentBlock r \<noteq> (True, None) \<Longrightarrow>
   escapedLine \<Longrightarrow> isNewLine lx (fst (peekRune r)) \<Longrightarrow>
   fst (skipUntilNewLine lx True r) \<noteq> None \<Longrightarrow>
   readUntilSignificant_outer lx insideNode escapedLine r = skipUntilNewLine lx True r"
  by (subst readUntilSignificant_outer.simps;
      cases "peekRune r"; cases "readUntilSignificant_inner 1 (discardBytes 2 r)";
      cases "skipUntilNewLine lx True r")
    (auto split del: if_split split: option.splits)

lemma outer_escaped_break:
  "snd (peekRune r) = None \<Longrightarrow> \<not> isWhitespace lx (fst (peekRune r)) \<Longrightarrow>
   \<not> (fst (peekRune r) = 0x5C \<and> insideNode) \<Longrightarrow>
   isNext charsStartComment r \<noteq> (True, None) \<Longrightarrow>
   isNext charsStartCommentBlock r \<noteq> (True, None) \<Longrightarrow>
   escapedLine \<Longrightarrow> isNewLine lx (fst (peekRune r)) \<Longrightarrow>
   fst (skipUntilNewLine lx True r) = None \<Longrightarrow>
   readUntilSignificant_outer lx insideNode escapedLine r =
     readUntilSignificant_outer lx insideNode False (snd (skipUntilNewLine lx True r))"
  by (subst readUntilSignificant_outer.simps;
      cases "peekRune r"; cases "readUntilSignificant_inner 1 (discardBytes 2 r)";
      cases "skipUntilNewLine lx True r")
    (auto split del: if_split split: option.splits)

lemma outer_escaped_significant:
  "snd (peekRune r) = None \<Longrightarrow> \<not> isWhitespace lx (fst (peekRune r)) \<Longrightarrow>
   \<not> (fst (peekRune r) = 0x5C \<and> insideNode) \<Longrightarrow>
   isNext charsStartComment r \<noteq> (True, None) \<Longrightarrow>
   isNext charsStartCommentBlock r \<noteq> (True, None) \<Longrightarrow>
   escapedLine \<Longrightarrow> \<not> isNewLine lx (fst (peekRune r)) \<Longrightarrow>
   readUntilSignificant_outer lx insideNode escapedLine r = (Some errSignificantInCont, r)"
  by (subst readUntilSignificant_outer.simps;
      cases "peekRune r"; cases "readUntilSignificant_inner 1 (discardBytes 2 r)";
      cases "skipUntilNewLine lx True r")
    (auto split del: if_split split: option.splits)

lemma outer_significant:
  "snd (peekRune r) = None \<Longrightarrow> \<not> isWhitespace lx (fst (peekRune r)) \<Longrightarrow>
   \<not> (fst (peekRune r) = 0x5C \<and> insideNode) \<Longrightarrow>
   isNext charsStartComment r \<noteq> (True, None) \<Longrightarrow>
   isNext charsStartCommentBlock r \<noteq> (True, None) \<Longrightarrow>
   \<not> escapedLine \<Longrightarrow>
   readUntilSignificant_outer lx insideNode escapedLine r = (None, r)"
  by (subst readUntilSignificant_outer.simps;
      cases "peekRune r"; cases "readUntilSignificant_inner 1 (discardBytes 2 r)";
      cases "skipUntilNewLine lx True r")
    (auto split del: if_split split: option.splits)

section \<open>Arguments and properties\<close>

text \<open>
  The end of \<^verbatim>\<open>readArgOrProp\<close>, reached with a type hint present or after
  \<^verbatim>\<open>readIdentifier\<close> failed: a value, then a check of what follows it. The results are
  the error, the reader and the node \<^verbatim>\<open>dest\<close> as the call leaves it.
\<close>

definition readArgOrProp_value ::
  "lexer \<Rightarrow> string option \<Rightarrow> reader \<Rightarrow> Node \<Rightarrow> bool \<Rightarrow> error option \<times> reader \<times> Node" where
  "readArgOrProp_value lx hint r dest discard =
     (case readValue lx r of
        (v, Some err, r1) \<Rightarrow> (Some err, r1, dest)
      | (v, None, r1) \<Rightarrow>
          let v' = v\<lparr>TypeHint := hint\<rparr> in
          (case peekRune r1 of
             (ch, perr) \<Rightarrow>
               if perr = Some EOF \<or> (perr = None \<and> isValidValueTerminator lx ch) then
                 (None, r1, if \<not> discard then AddArg dest v' else dest)
               else if perr \<noteq> None then (perr, r1, dest)
               else (Some errUnexpectedTokenAfterValue, r1, dest)))"

definition readArgOrProp ::
  "lexer \<Rightarrow> reader \<Rightarrow> Node \<Rightarrow> bool \<Rightarrow> error option \<times> reader \<times> Node" where
  "readArgOrProp lx r dest discard =
     (case readMaybeTypeHint lx r of
        (hint, Some err, r1) \<Rightarrow> (Some err, r1, dest)
      | (hint, None, r1) \<Rightarrow>
          if hint = None then
            (case readIdentifier lx stopModeEquals r1 of
               (i, Some err, quoted, r2) \<Rightarrow> readArgOrProp_value lx hint r2 dest discard
             | (i, None, quoted, r2) \<Rightarrow>
                 (case peekRune r2 of
                    (ch, perr) \<Rightarrow>
                      if perr = Some EOF then
                        (if quoted then
                           (None, r2,
                            if \<not> discard then AddArg dest (NewStringValue i None) else dest)
                         else (Some errUnexpectedBareIdentifier, r2, dest))
                      else if perr = None then
                        (if isValidValueTerminator lx ch then
                           (if quoted then
                              (None, r2,
                               if \<not> discard then AddArgValue dest (NewStringValue i None)
                               else dest)
                            else (Some errUnexpectedBareIdentifier, r2, dest))
                         else if ch = 0x3D then
                           (case readValue lx (discardByte r2) of
                              (v, Some err, r3) \<Rightarrow> (Some err, r3, dest)
                            | (v, None, r3) \<Rightarrow>
                                (None, r3, if \<not> discard then SetPropValue dest i v else dest))
                         else (Some errUnexpectedTokenAfterIdentifier, r2, dest))
                      else (perr, r2, dest)))
          else readArgOrProp_value lx hint r1 dest discard)"

section \<open>Nodes\<close>

text \<open>
  \<^verbatim>\<open>readNodes\<close> and \<^verbatim>\<open>readNode\<close> call each other, and each is a loop. The model
  counts the turns: \<open>fuel\<close> goes down by one at every turn of a loop, and a run that has
  none left is \<open>None\<close>, so that a result \<open>Some\<close> is a result of the source. The results
  are those of the Go functions (the nodes or node, and the error) and the reader.

  \<open>readNodes_loop\<close> is the outer loop of \<^verbatim>\<open>readNodes\<close> with its variable \<^verbatim>\<open>nodes\<close>,
  which \<open>readNodes\<close> enters with no node;
  a turn of the loop inside it that skips a line break is a turn of \<open>readNodes_loop\<close> too,
  since the outer loop starts with the inner one. \<open>readNode_loop\<close> is the loop of
  \<^verbatim>\<open>readNode\<close> with its variable \<^verbatim>\<open>node\<close>.
\<close>

fun readNodes_loop ::
    "lexer \<Rightarrow> nat \<Rightarrow> reader \<Rightarrow> Node list \<Rightarrow> (Node list \<times> error option \<times> reader) option"
  and readNodes :: "lexer \<Rightarrow> nat \<Rightarrow> reader \<Rightarrow> (Node list \<times> error option \<times> reader) option"
  and readNode :: "lexer \<Rightarrow> nat \<Rightarrow> reader \<Rightarrow> (Node \<times> error option \<times> reader) option"
  and readNode_loop ::
    "lexer \<Rightarrow> nat \<Rightarrow> reader \<Rightarrow> Node \<Rightarrow> (Node \<times> error option \<times> reader) option"
where
  "readNodes_loop lx 0 r nodes = None"
| "readNodes_loop lx (Suc fuel) r nodes =
     (case readUntilSignificant lx r False of
        (Some err, r1) \<Rightarrow>
          Some (nodes, if err = EOF \<and> depth r1 = 0 then None else Some err, r1)
      | (None, r1) \<Rightarrow>
          (case peekRune r1 of
             (ch, Some err) \<Rightarrow>
               Some (nodes, if err = EOF \<and> depth r1 = 0 then None else Some err, r1)
           | (ch, None) \<Rightarrow>
               if \<not> isNewLine lx ch then
                 (if ch = 0x3B then Some (nodes, Some errUnexpectedSemicolon, r1)
                  else if ch = 0x7D then
                    Some (nodes,
                          if depth r1 = 0 then Some errUnexpectedRightBracket else None,
                          discardByte r1)
                  else if ch = 0x5C then Some (nodes, Some errUnexpectedLineCont, r1)
                  else
                    (case isNext charsSlashDash r1 of
                       (slashdash, Some err) \<Rightarrow> Some (nodes, Some err, r1)
                     | (slashdash, None) \<Rightarrow>
                         let r2 = (if slashdash then discardBytes 2 r1 else r1) in
                         (case readUntilSignificant lx r2 True of
                            (Some err, r3) \<Rightarrow>
                              Some (nodes,
                                    Some (if err = EOF then errUnexpectedSlashdash else err), r3)
                          | (None, r3) \<Rightarrow>
                              (case readNode lx fuel r3 of
                                 None \<Rightarrow> None
                               | Some (node, Some err, r4) \<Rightarrow> Some (nodes, Some err, r4)
                               | Some (node, None, r4) \<Rightarrow>
                                   readNodes_loop lx fuel r4
                                     (if \<not> slashdash then nodes @ [node] else nodes)))))
               else
                 (case skipUntilNewLine lx True r1 of
                    (Some err, r2) \<Rightarrow> Some (nodes, Some err, r2)
                  | (None, r2) \<Rightarrow> readNodes_loop lx fuel r2 nodes)))"
| "readNodes lx fuel r = readNodes_loop lx fuel r []"
| "readNode lx fuel r =
     (let node = NewNode [] in
      case readMaybeTypeHint lx r of
        (hint, Some err, r1) \<Rightarrow> Some (node, Some err, r1)
      | (hint, None, r1) \<Rightarrow>
          let node1 = setTypeHint node hint in
          (case readIdentifier lx stopModeSemicolon r1 of
             (name, Some err, quoted, r2) \<Rightarrow> Some (node1, Some err, r2)
           | (name, None, quoted, r2) \<Rightarrow> readNode_loop lx fuel r2 (setName node1 name)))"
| "readNode_loop lx 0 r node = None"
| "readNode_loop lx (Suc fuel) r node =
     (case readUntilSignificant lx r True of
        (Some err, r1) \<Rightarrow> Some (node, if err = EOF then None else Some err, r1)
      | (None, r1) \<Rightarrow>
          let (slashdash, serr) = isNext charsSlashDash r1;
              r2 = (if slashdash \<and> serr = None then discardBytes 2 r1 else r1)
          in
          (case readUntilSignificant lx r2 True of
             (Some err, r3) \<Rightarrow>
               Some (node, Some (if err = EOF then errUnexpectedSlashdash else err), r3)
           | (None, r3) \<Rightarrow>
               (case peekRune r3 of
                  (ch, Some err) \<Rightarrow> Some (node, Some err, r3)
                | (ch, None) \<Rightarrow>
                    if isNewLine lx ch then
                      Some (node, if slashdash then Some errUnexpectedSlashdash else None,
                            discardRunes lx 1 r3)
                    else if ch = 0x3B then
                      Some (node, if slashdash then Some errUnexpectedSlashdash else None,
                            discardByte r3)
                    else if ch = 0x7D then
                      Some (node, if slashdash then Some errUnexpectedSlashdash else None, r3)
                    else if ch = 0x7B then
                      (let r4 = discardByte r3;
                           r5 = r4\<lparr>depth := depth r4 + 1\<rparr>
                       in
                       case readNodes lx fuel r5 of
                         None \<Rightarrow> None
                       | Some (children, Some err, r6) \<Rightarrow> Some (node, Some err, r6)
                       | Some (children, None, r6) \<Rightarrow>
                           let r7 = r6\<lparr>depth := depth r6 - 1\<rparr>;
                               node' = (if \<not> slashdash then foldl AddChild node children
                                        else node);
                               r8 = discardByte r7
                           in readNode_loop lx fuel r8 node')
                    else
                      (case readArgOrProp lx r3 node slashdash of
                         (Some err, r4, node') \<Rightarrow> Some (node', Some err, r4)
                       | (None, r4, node') \<Rightarrow> readNode_loop lx fuel r4 node'))))"

section \<open>A lexer after the spec\<close>

text \<open>
  Modelled from the spec: \<^verbatim>\<open>isNewLine\<close>, \<^verbatim>\<open>isWhitespace\<close> and
  \<^verbatim>\<open>isValidValueTerminator\<close> are not among the source files. The spec names the line
  feed and the carriage return as line breaks, and gives the terminators of a value as
  whitespace, a newline, \<^verbatim>\<open>;\<close> and \<^verbatim>\<open>}\<close> (and end of input, which the callers
  test themselves). Whitespace is taken to be the space and the tab.
\<close>

definition isNewLine_spec :: "rune \<Rightarrow> bool" where
  "isNewLine_spec ch \<longleftrightarrow> ch = 0x0A \<or> ch = 0x0D"

definition isWhitespace_spec :: "rune \<Rightarrow> bool" where
  "isWhitespace_spec ch \<longleftrightarrow> ch = 0x20 \<or> ch = 0x09"

definition isValidValueTerminator_spec :: "rune \<Rightarrow> bool" where
  "isValidValueTerminator_spec ch \<longleftrightarrow>
     isWhitespace_spec ch \<or> isNewLine_spec ch \<or> ch = 0x3B \<or> ch = 0x7D"

text \<open>
  Modelled from the spec: the quoted string scanner \<^verbatim>\<open>readQuotedString\<close> is not among
  the source files. It consumes from the opening quote to the matching unescaped closing
  quote, decodes the single-character escapes, and fails with \<open>ErrInvalidSyntax\<close> on a
  missing opening quote, an unknown escape or a string that does not end. \<open>unquote\<close>
  works on the bytes after the opening quote and gives the text and the bytes it took.
\<close>

definition escapeChar :: "char \<Rightarrow> char option" where
  "escapeChar c =
     (if c = CHR ''n'' then Some (CHR 0x0A)
      else if c = CHR ''r'' then Some (CHR 0x0D)
      else if c = CHR ''t'' then Some (CHR 0x09)
      else if c = CHR ''b'' then Some (CHR 0x08)
      else if c = CHR ''f'' then Some (CHR 0x0C)
      else if c = CHR 0x5C then Some (CHR 0x5C)
      else if c = CHR ''/'' then Some (CHR ''/'')
      else if c = CHR 0x22 then Some (CHR 0x22)
      else None)"

fun unquote :: "string \<Rightarrow> (string \<times> nat) option" where
  "unquote [] = None"
| "unquote (c # cs) =
     (if c = CHR 0x22 then Some ([], 1)
      else if c = CHR 0x5C then
        (case cs of
           [] \<Rightarrow> None
         | e # cs' \<Rightarrow>
             (case escapeChar e of
                None \<Rightarrow> None
              | Some x \<Rightarrow>
                  (case unquote cs' of None \<Rightarrow> None | Some (t, n) \<Rightarrow> Some (x # t, n + 2))))
      else (case unquote cs of None \<Rightarrow> None | Some (t, n) \<Rightarrow> Some (c # t, n + 1)))"

definition readQuotedString_spec :: "reader \<Rightarrow> string \<times> error option \<times> reader" where
  "readQuotedString_spec r =
     (case input r of
        [] \<Rightarrow> ([], Some ErrInvalidSyntax, r)
      | c # cs \<Rightarrow>
          if c \<noteq> CHR 0x22 then ([], Some ErrInvalidSyntax, r)
          else
            (case unquote cs of
               None \<Rightarrow> ([], Some ErrInvalidSyntax, discardBytes (length (input r)) r)
             | Some (t, n) \<Rightarrow> (t, None, discardBytes (n + 1) r)))"

text \<open>
  Modelled from the spec: the raw string scanner \<^verbatim>\<open>readRawString\<close> is not among the
  source files. It consumes \<^verbatim>\<open>r\<close>, then N characters \<^verbatim>\<open>#\<close>, then a quote, then raw
  bytes up to a quote followed by N characters \<^verbatim>\<open>#\<close>. The test of the source has a
  raw string that does not end fail with \<^verbatim>\<open>io.EOF\<close>.
\<close>

fun rawBody :: "nat \<Rightarrow> string \<Rightarrow> (string \<times> nat) option" where
  "rawBody n [] = None"
| "rawBody n (c # cs) =
     (if c = CHR 0x22 \<and> take n cs = replicate n (CHR ''#'') then Some ([], n + 1)
      else (case rawBody n cs of None \<Rightarrow> None | Some (t, k) \<Rightarrow> Some (c # t, k + 1)))"

definition readRawString_spec :: "reader \<Rightarrow> string \<times> error option \<times> reader" where
  "readRawString_spec r =
     (case input r of
        [] \<Rightarrow> ([], Some EOF, r)
      | c # cs \<Rightarrow>
          if c \<noteq> CHR ''r'' then ([], Some ErrInvalidSyntax, r)
          else
            let n = length (takeWhile (\<lambda>b. b = CHR ''#'') cs);
                rest = drop n cs
            in
            (case rest of
               [] \<Rightarrow> ([], Some EOF, discardBytes (length (input r)) r)
             | q # body \<Rightarrow>
                 if q \<noteq> CHR 0x22 then ([], Some ErrInvalidSyntax, discardBytes (n + 1) r)
                 else
                   (case rawBody n body of
                      None \<Rightarrow> ([], Some EOF, discardBytes (length (input r)) r)
                    | Some (t, k) \<Rightarrow> (t, None, discardBytes (n + 2 + k) r))))"

definition startsRawString :: "string \<Rightarrow> bool" where
  "startsRawString bs \<longleftrightarrow>
     (case bs of
        c # d # _ \<Rightarrow> c = CHR ''r'' \<and> (d = CHR 0x22 \<or> d = CHR ''#'')
      | _ \<Rightarrow> False)"

text \<open>
  Modelled from the spec: the identifier scanners \<^verbatim>\<open>readBareIdentifier\<close> and
  \<^verbatim>\<open>readIdentifier\<close> are not among the source files. A bare identifier ends at
  whitespace, a line break or a structural character, and in the mode
  \<open>stopModeEquals\<close> at \<^verbatim>\<open>=\<close> too; elsewhere \<^verbatim>\<open>=\<close> is not a character of a bare
  identifier. It fails with \<open>errInvalidInitialCharInBareIdent\<close> when it starts with a
  digit or with a character no identifier has, and with \<open>errInvalidBareIdent\<close> when it
  looks like a number after a leading \<^verbatim>\<open>-\<close>. A quoted identifier is read by the quoted
  string scanner and a raw one by the raw string scanner; the last result tells a quoted
  identifier from a bare one. Nothing is consumed when the first character is refused.
\<close>

definition isDigitChar :: "char \<Rightarrow> bool" where
  "isDigitChar c \<longleftrightarrow> (of_char c :: nat) \<ge> 0x30 \<and> (of_char c :: nat) \<le> 0x39"

definition isStructuralChar :: "char \<Rightarrow> bool" where
  "isStructuralChar c \<longleftrightarrow>
     c = CHR '';'' \<or> c = CHR ''{'' \<or> c = CHR ''}'' \<or> c = CHR ''('' \<or> c = CHR '')''
     \<or> c = CHR 0x22 \<or> c = CHR 0x5C \<or> c = CHR ''/''"

definition isBareStop :: "char \<Rightarrow> bool" where
  "isBareStop c \<longleftrightarrow>
     isWhitespace_spec (of_char c) \<or> isNewLine_spec (of_char c) \<or> isStructuralChar c"

definition readBareIdentifier_spec :: "stopMode \<Rightarrow> reader \<Rightarrow> string \<times> error option \<times> reader" where
  "readBareIdentifier_spec mode r =
     (case input r of
        [] \<Rightarrow> ([], Some EOF, r)
      | c # cs \<Rightarrow>
          if isDigitChar c \<or> isBareStop c \<or> c = CHR ''='' then
            ([], Some errInvalidInitialCharInBareIdent, r)
          else if c = CHR ''-'' \<and> (case cs of [] \<Rightarrow> False | d # _ \<Rightarrow> isDigitChar d) then
            ([], Some errInvalidBareIdent, r)
          else
            let ident = takeWhile (\<lambda>b. \<not> isBareStop b \<and> b \<noteq> CHR ''='') (input r);
                r' = discardBytes (length ident) r
            in
            (case input r' of
               [] \<Rightarrow> (ident, None, r')
             | b # _ \<Rightarrow>
                 if b = CHR ''='' \<and> mode \<noteq> stopModeEquals then (ident, Some errInvalidBareIdent, r')
                 else (ident, None, r')))"

definition readIdentifier_spec ::
  "stopMode \<Rightarrow> reader \<Rightarrow> string \<times> error option \<times> bool \<times> reader" where
  "readIdentifier_spec mode r =
     (case input r of
        [] \<Rightarrow> ([], Some EOF, False, r)
      | c # cs \<Rightarrow>
          if c = CHR 0x22 then
            (case readQuotedString_spec r of (t, err, r') \<Rightarrow> (t, err, True, r'))
          else if startsRawString (input r) then
            (case readRawString_spec r of (t, err, r') \<Rightarrow> (t, err, True, r'))
          else
            (case readBareIdentifier_spec mode r of (t, err, r') \<Rightarrow> (t, err, False, r')))"

text \<open>
  Modelled from the spec: \<^verbatim>\<open>readMaybeTypeHint\<close> is not among the source files. A type
  hint is one identifier in parentheses; anything but the closing parenthesis after the
  identifier is \<open>ErrInvalidSyntax\<close>, and a hint that the end of input cuts short is
  \<open>ErrUnexpectedEOF\<close>. Without an opening parenthesis there is no hint and nothing is
  consumed.
\<close>

definition readMaybeTypeHint_spec :: "reader \<Rightarrow> string option \<times> error option \<times> reader" where
  "readMaybeTypeHint_spec r =
     (case input r of
        [] \<Rightarrow> (None, None, r)
      | c # cs \<Rightarrow>
          if c \<noteq> CHR ''('' then (None, None, r)
          else
            (case readIdentifier_spec stopModeFreestanding (discardByte r) of
               (t, Some err, quoted, r1) \<Rightarrow>
                 (None, Some (if input r1 = [] then ErrUnexpectedEOF else err), r1)
             | (t, None, quoted, r1) \<Rightarrow>
                 (case input r1 of
                    [] \<Rightarrow> (None, Some ErrUnexpectedEOF, r1)
                  | d # _ \<Rightarrow>
                      if d = CHR '')'' then (Some t, None, discardByte r1)
                      else (None, Some ErrInvalidSyntax, r1))))"

text \<open>
  Modelled from the spec: the scanners \<^verbatim>\<open>readBool\<close>, \<^verbatim>\<open>readNull\<close>, \<^verbatim>\<open>readNumber\<close>
  and \<^verbatim>\<open>readValue\<close> are not among the source files. A number is an optional sign, then
  either a prefix \<^verbatim>\<open>0x\<close>, \<^verbatim>\<open>0o\<close> or \<^verbatim>\<open>0b\<close> and digits of that base, or decimal
  digits with an optional fraction and an optional exponent; underscores between digits
  are dropped. Digits missing after a prefix are \<open>ErrInvalidNumValue\<close>, other malformed
  numbers \<open>ErrInvalidSyntax\<close>. A number with a fraction is a float; the test of the source
  reads \<^verbatim>\<open>4e3\<close> as the integer 4000 and \<^verbatim>\<open>7e-2\<close> as a float, so an exponent alone
  makes a float only when it is negative. A scanner that fails gives the value \<open>noValue\<close>.
\<close>

definition digitVal :: "nat \<Rightarrow> char \<Rightarrow> nat option" where
  "digitVal base c =
     (let x = (of_char c :: nat);
          d = (if 0x30 \<le> x \<and> x \<le> 0x39 then x - 0x30
               else if 0x61 \<le> x \<and> x \<le> 0x66 then x - 0x61 + 10
               else if 0x41 \<le> x \<and> x \<le> 0x46 then x - 0x41 + 10
               else 16)
      in if d < base then Some d else None)"

fun scanDigits :: "nat \<Rightarrow> string \<Rightarrow> int \<Rightarrow> nat \<Rightarrow> nat \<Rightarrow> int \<times> nat \<times> nat" where
  "scanDigits base [] acc k n = (acc, k, n)"
| "scanDigits base (c # cs) acc k n =
     (case digitVal base c of
        Some d \<Rightarrow> scanDigits base cs (acc * int base + int d) (k + 1) (n + 1)
      | None \<Rightarrow>
          if c = CHR ''_'' \<and> 0 < k then scanDigits base cs acc k (n + 1)
          else (acc, k, n))"

definition noValue :: Value where
  "noValue = \<lparr>Data = NullVal, TypeHint = None\<rparr>"

definition readBool_spec :: "reader \<Rightarrow> bool \<times> error option \<times> reader" where
  "readBool_spec r =
     (if isNext ''true'' r = (True, None) then (True, None, discardBytes 4 r)
      else if isNext ''false'' r = (True, None) then (False, None, discardBytes 5 r)
      else (False, Some ErrInvalidSyntax, r))"

definition readNull_spec :: "reader \<Rightarrow> error option \<times> reader" where
  "readNull_spec r =
     (if isNext ''null'' r = (True, None) then (None, discardBytes 4 r)
      else (Some ErrInvalidSyntax, r))"

definition basePrefix :: "string \<Rightarrow> nat option" where
  "basePrefix bs =
     (if take 2 bs = ''0x'' then Some 16
      else if take 2 bs = ''0o'' then Some 8
      else if take 2 bs = ''0b'' then Some 2
      else None)"

text \<open>The exponent of a decimal number: its value and the bytes it takes, \<open>None\<close> when
  the digits are missing.\<close>

definition scanExponent :: "string \<Rightarrow> (int \<times> nat) option" where
  "scanExponent bs =
     (case bs of
        [] \<Rightarrow> Some (0, 0)
      | c # cs \<Rightarrow>
          if c = CHR ''e'' \<or> c = CHR ''E'' then
            (let neg = (case cs of [] \<Rightarrow> False | d # _ \<Rightarrow> d = CHR ''-'');
                 signed = (case cs of [] \<Rightarrow> False | d # _ \<Rightarrow> d = CHR ''-'' \<or> d = CHR ''+'');
                 ds = (if signed then tl cs else cs)
             in
             case scanDigits 10 ds 0 0 0 of
               (e, k, n) \<Rightarrow>
                 if k = 0 then None
                 else Some (if neg then - e else e, 1 + (if signed then 1 else 0) + n))
          else Some (0, 0))"

definition readNumber_spec :: "reader \<Rightarrow> Value \<times> error option \<times> reader" where
  "readNumber_spec r =
     (let bs = input r;
          neg = (case bs of [] \<Rightarrow> False | c # _ \<Rightarrow> c = CHR ''-'');
          signed = (case bs of [] \<Rightarrow> False | c # _ \<Rightarrow> c = CHR ''-'' \<or> c = CHR ''+'');
          n0 = (if signed then 1 else 0);
          s1 = drop n0 bs;
          sgn = (\<lambda>i :: int. if neg then - i else i)
      in
      case basePrefix s1 of
        Some base \<Rightarrow>
          (case scanDigits base (drop 2 s1) 0 0 0 of
             (i, k, n) \<Rightarrow>
               if k = 0 then (noValue, Some ErrInvalidNumValue, discardBytes (n0 + 2) r)
               else (NewIntegerValue (sgn i) None, None, discardBytes (n0 + 2 + n) r))
      | None \<Rightarrow>
          (case scanDigits 10 s1 0 0 0 of
             (i, k, n) \<Rightarrow>
               if k = 0 then (noValue, Some ErrInvalidSyntax, discardBytes n0 r)
               else
                 let s2 = drop n s1;
                     dotted = (case s2 of
                                 c # d # _ \<Rightarrow> c = CHR ''.'' \<and> digitVal 10 d \<noteq> None
                               | _ \<Rightarrow> False);
                     (m, kf, nf) = (if dotted then scanDigits 10 (tl s2) i 0 0 else (i, 0, 0));
                     n1 = n + (if dotted then 1 + nf else 0);
                     s3 = drop n1 s1
                 in
                 (case scanExponent s3 of
                    None \<Rightarrow> (noValue, Some ErrInvalidSyntax, discardBytes (n0 + n1) r)
                  | Some (e, ne) \<Rightarrow>
                      let r' = discardBytes (n0 + n1 + ne) r in
                      if dotted \<or> e < 0 then
                        (NewFloatValue (sgn m) (e - int kf) None, None, r')
                      else (NewIntegerValue (sgn m * 10 ^ nat e) None, None, r'))))"

definition readValue_spec :: "reader \<Rightarrow> Value \<times> error option \<times> reader" where
  "readValue_spec r =
     (case readMaybeTypeHint_spec r of
        (hint, Some err, r1) \<Rightarrow> (noValue, Some err, r1)
      | (hint, None, r1) \<Rightarrow>
          (case input r1 of
             [] \<Rightarrow> (noValue, Some EOF, r1)
           | c # cs \<Rightarrow>
               if c = CHR 0x22 then
                 (case readQuotedString_spec r1 of
                    (t, Some err, r2) \<Rightarrow> (noValue, Some err, r2)
                  | (t, None, r2) \<Rightarrow> (NewStringValue t hint, None, r2))
               else if startsRawString (input r1) then
                 (case readRawString_spec r1 of
                    (t, Some err, r2) \<Rightarrow> (noValue, Some err, r2)
                  | (t, None, r2) \<Rightarrow> (NewStringValue t hint, None, r2))
               else if c = CHR ''t'' \<or> c = CHR ''f'' then
                 (case readBool_spec r1 of
                    (b, Some err, r2) \<Rightarrow> (noValue, Some err, r2)
                  | (b, None, r2) \<Rightarrow> (NewBoolValue b hint, None, r2))
               else if c = CHR ''n'' then
                 (case readNull_spec r1 of
                    (Some err, r2) \<Rightarrow> (noValue, Some err, r2)
                  | (None, r2) \<Rightarrow> (NewNullValue hint, None, r2))
               else if isDigitChar c \<or> c = CHR ''-'' \<or> c = CHR ''+'' then
                 (case readNumber_spec r1 of
                    (v, Some err, r2) \<Rightarrow> (noValue, Some err, r2)
                  | (v, None, r2) \<Rightarrow> (v\<lparr>TypeHint := hint\<rparr>, None, r2))
               else (noValue, Some ErrInvalidSyntax, r1)))"

definition spec_lexer :: lexer where
  "spec_lexer = \<lparr>
     isNewLine = isNewLine_spec,
     isWhitespace = isWhitespace_spec,
     isValidValueTerminator = isValidValueTerminator_spec,
     readMaybeTypeHint = readMaybeTypeHint_spec,
     readIdentifier = readIdentifier_spec,
     readValue = readValue_spec\<rparr>"

section \<open>The caller's view of a parse\<close>

text \<open>
  Modelled from the spec: the entry point that hands the caller the document or the error
  is not among the source files. The spec has every failure reach the caller with the
  line and the column of the reader; \<^verbatim>\<open>readNodes\<close> returns errors that carry no
  position, so the position can only be read off the reader once \<^verbatim>\<open>readNodes\<close> has
  returned.
\<close>

record failure =
  cause :: error
  atLine :: int
  atColumn :: int

definition Parse :: "lexer \<Rightarrow> nat \<Rightarrow> string \<Rightarrow> (failure + Node list) option" where
  "Parse lx fuel s =
     (case readNodes lx fuel (wrapReader s) of
        None \<Rightarrow> None
      | Some (nodes, None, r) \<Rightarrow> Some (Inr nodes)
      | Some (nodes, Some err, r) \<Rightarrow>
          Some (Inl \<lparr>cause = err, atLine = line r, atColumn = pos r\<rparr>))"

section \<open>Notions the claims use\<close>

text \<open>What \<^verbatim>\<open>readArgOrProp\<close> tests after an identifier or a value: the end of input, or a
  rune that \<^verbatim>\<open>isValidValueTerminator\<close> accepts.\<close>

definition atValueEnd :: "lexer \<Rightarrow> reader \<Rightarrow> bool" where
  "atValueEnd lx r \<longleftrightarrow>
     (case peekRune r of
        (ch, perr) \<Rightarrow> perr = Some EOF \<or> (perr = None \<and> isValidValueTerminator lx ch))"

text \<open>
  The text of a line comment: at none of its bytes does the scanner see a line break,
  which is a carriage return and line feed pair or a rune that \<^verbatim>\<open>isNewLine\<close> accepts.
  \<open>rest\<close> is what follows the text, since a rune may reach into it.
\<close>

fun breakFree :: "lexer \<Rightarrow> string \<Rightarrow> string \<Rightarrow> bool" where
  "breakFree lx [] rest = True"
| "breakFree lx (b # bs) rest \<longleftrightarrow>
     take 2 (b # bs @ rest) \<noteq> charsCRLF
     \<and> \<not> isNewLine lx (fst (DecodeRune (b # bs @ rest)))
     \<and> breakFree lx bs rest"

section \<open>Running the parser on a given input\<close>

text \<open>The equations that compute the reader, the skipping functions, the lexer after the
  spec and the node operations on explicit bytes.\<close>

lemmas reader_eval = wrapReader_def peekRune_def ReadRune_def isNext_def peekBytes_def
  discardBytes_def discardByte_def readByte_def readBytes_def readRune_def
  charsSlashDash_def charsCRLF_def charsStartComment_def charsStartCommentBlock_def
  charsEndCommentBlock_def RuneLen_def RuneError_def

lemmas loop_eval =
  readBytes_loop_done readBytes_loop_eof readBytes_loop_read
  skipUntilNewLine_crlf skipUntilNewLine_error skipUntilNewLine_break skipUntilNewLine_step
  inner_start_error inner_open inner_end_error inner_close_last inner_close_nested inner_step
  outer_error outer_whitespace_panic outer_whitespace outer_backslash outer_line_comment
  outer_block_comment_error outer_block_comment outer_escaped_break_error outer_escaped_break
  outer_escaped_significant outer_significant readUntilSignificant_def

lemmas lexer_eval = spec_lexer_def isNewLine_spec_def isWhitespace_spec_def
  isValidValueTerminator_spec_def readMaybeTypeHint_spec_def readIdentifier_spec_def
  readBareIdentifier_spec_def readQuotedString_spec_def readRawString_spec_def
  startsRawString_def isDigitChar_def isStructuralChar_def isBareStop_def readValue_spec_def
  readNumber_spec_def readBool_spec_def readNull_spec_def basePrefix_def scanExponent_def
  digitVal_def noValue_def escapeChar_def

lemmas node_eval = NewNode_def AddArg_def AddArgValue_def SetPropValue_def AddChild_def
  setTypeHint_def setName_def NewStringValue_def NewIntegerValue_def NewFloatValue_def
  NewBoolValue_def NewNullValue_def readArgOrProp_def readArgOrProp_value_def Let_def

lemma fuel10: "10 + k = Suc (Suc (Suc (Suc (Suc (Suc (Suc (Suc (Suc (Suc k)))))))))"
  by simp

section \<open>Facts about single steps\<close>

lemma peekRune_ascii:
  "input r = c # cs \<Longrightarrow> (of_char c :: nat) < 0x80 \<Longrightarrow> peekRune r = (of_char c, None)"
  by (simp add: peekRune_def ReadRune_def Let_def)

lemma isNext_first_differs:
  "input r = a # cs \<Longrightarrow> a \<noteq> x \<Longrightarrow> isNext (x # xs) r \<noteq> (True, None)"
  by (cases cs) (auto simp: isNext_def peekBytes_def take_Cons' split: if_splits)

lemma isNext_second_differs:
  "input r = a # b # cs \<Longrightarrow> b \<noteq> y \<Longrightarrow> isNext [x, y] r \<noteq> (True, None)"
  by (auto simp: isNext_def peekBytes_def split: if_splits)

lemma isNext_two:
  "input r = a # b # cs \<Longrightarrow> isNext [a, b] r = (True, None)"
  by (auto simp: isNext_def peekBytes_def)

lemma depth_discardByte: "depth (discardByte r) = depth r"
  by (simp add: discardByte_def readByte_def split: list.splits)

text \<open>A significant byte that opens no comment stops \<^verbatim>\<open>readUntilSignificant\<close> at once.\<close>

lemma readUntilSignificant_stays:
  assumes "input r = c # cs" and "(of_char c :: nat) < 0x80"
    and "\<not> isWhitespace lx (of_char c)" and "(of_char c :: nat) \<noteq> 0x5C"
    and "c \<noteq> CHR ''/'' \<or> (\<exists>d ds. cs = d # ds \<and> d \<noteq> CHR ''/'' \<and> d \<noteq> CHR ''*'')"
  shows "readUntilSignificant lx r insideNode = (None, r)"
proof -
  have pk: "peekRune r = (of_char c, None)"
    using assms(1,2) by (rule peekRune_ascii)
  have c1: "isNext charsStartComment r \<noteq> (True, None)"
  proof (cases "c = CHR ''/''")
    case False
    with assms(1) show ?thesis
      unfolding charsStartComment_def by (intro isNext_first_differs [where a = c]) auto
  next
    case True
    with assms(5) obtain d ds where "cs = d # ds" "d \<noteq> CHR ''/''"
      by auto
    with assms(1) show ?thesis
      unfolding charsStartComment_def
      by (intro isNext_second_differs [where a = c and b = d]) auto
  qed
  have c2: "isNext charsStartCommentBlock r \<noteq> (True, None)"
  proof (cases "c = CHR ''/''")
    case False
    with assms(1) show ?thesis
      unfolding charsStartCommentBlock_def by (intro isNext_first_differs [where a = c]) auto
  next
    case True
    with assms(5) obtain d ds where "cs = d # ds" "d \<noteq> CHR ''*''"
      by auto
    with assms(1) show ?thesis
      unfolding charsStartCommentBlock_def
      by (intro isNext_second_differs [where a = c and b = d]) auto
  qed
  have "readUntilSignificant_outer lx insideNode False r = (None, r)"
    by (rule outer_significant) (simp_all add: pk assms(3,4) c1 c2)
  then show ?thesis
    by (simp add: readUntilSignificant_def)
qed

lemma readArgOrProp_value_discard:
  "readArgOrProp_value lx hint r dest True =
     (case readArgOrProp_value lx hint r dest False of (err, r', dest') \<Rightarrow> (err, r', dest))"
proof -
  obtain v verr r1 where rv: "readValue lx r = (v, verr, r1)"
    by (cases "readValue lx r")
  obtain ch perr where pk: "peekRune r1 = (ch, perr)"
    by (cases "peekRune r1")
  show ?thesis
    by (cases verr) (simp_all add: readArgOrProp_value_def rv pk Let_def)
qed

lemma readArgOrProp_discard: "readArgOrProp lx r dest True =
          (case readArgOrProp lx r dest False of (err, r', dest') \<Rightarrow> (err, r', dest))"
proof -
  obtain hint herr r1 where rh: "readMaybeTypeHint lx r = (hint, herr, r1)"
    by (cases "readMaybeTypeHint lx r")
  obtain i ierr quoted r2 where ri: "readIdentifier lx stopModeEquals r1 = (i, ierr, quoted, r2)"
    by (cases "readIdentifier lx stopModeEquals r1")
  obtain ch perr where pk: "peekRune r2 = (ch, perr)"
    by (cases "peekRune r2")
  obtain v verr r3 where rv: "readValue lx (discardByte r2) = (v, verr, r3)"
    by (cases "readValue lx (discardByte r2)")
  show ?thesis
  proof (cases herr)
    case (Some e)
    then show ?thesis by (simp add: readArgOrProp_def rh)
  next
    case None
    note h = this
    show ?thesis
    proof (cases hint)
      case (Some t)
      with h show ?thesis
        by (simp add: readArgOrProp_def rh readArgOrProp_value_discard)
    next
      case None
      note nh = this
      show ?thesis
      proof (cases ierr)
        case (Some e)
        with h nh show ?thesis
          by (simp add: readArgOrProp_def rh ri readArgOrProp_value_discard)
      next
        case None
        with h nh show ?thesis
          by (cases verr) (simp_all add: readArgOrProp_def rh ri pk rv)
      qed
    qed
  qed
qed

lemma readNode_loop_slashdash_children:
  assumes "\<not> isWhitespace lx 0x2F" and "\<not> isWhitespace lx 0x7B"
    and "\<not> isNewLine lx 0x7B" and inp: "input rc = ''/-{'' @ s"
  shows "readNode_loop lx (Suc fuel) rc node =
      (case readNodes lx fuel ((discardByte (discardBytes 2 rc))\<lparr>depth := depth rc + 1\<rparr>) of
         None \<Rightarrow> None
       | Some (children, Some err, r6) \<Rightarrow> Some (node, Some err, r6)
       | Some (children, None, r6) \<Rightarrow>
           readNode_loop lx fuel (discardByte (r6\<lparr>depth := depth r6 - 1\<rparr>)) node)"
proof -
  let ?r2 = "discardBytes 2 rc"
  have stay1: "readUntilSignificant lx rc True = (None, rc)"
    using inp assms(1) by (intro readUntilSignificant_stays [where c = "CHR ''/''"]) auto
  have sd: "isNext charsSlashDash rc = (True, None)"
    using inp by (simp add: charsSlashDash_def isNext_two)
  have inp2: "input ?r2 = CHR ''{'' # s"
    using inp by (simp add: input_discardBytes)
  have stay2: "readUntilSignificant lx ?r2 True = (None, ?r2)"
    using inp2 assms(2) by (intro readUntilSignificant_stays [where c = "CHR ''{''"]) auto
  have pk: "peekRune ?r2 = (0x7B, None)"
    using peekRune_ascii [OF inp2] by simp
  have d: "depth (discardByte ?r2) = depth rc"
    by (simp add: depth_discardByte discardBytes_def peekBytes_def inp depth_countBytes)
  show ?thesis
    apply (subst readNode_loop.simps)
    apply (simp only: stay1 sd stay2 pk prod.case option.case Let_def simp_thms if_True if_False)
    apply (simp add: assms(3) d Let_def cong: option.case_cong_weak prod.case_cong_weak)
    done
qed


lemma readNodes_loop_slashdash_node:
  assumes "\<not> isWhitespace lx 0x2F" and "\<not> isNewLine lx 0x2F"
    and inp: "input rn = ''/-'' @ s"
  shows "readNodes_loop lx (Suc fuel) rn nodes =
      (case readUntilSignificant lx (discardBytes 2 rn) True of
         (Some err, r3) \<Rightarrow>
           Some (nodes, Some (if err = EOF then errUnexpectedSlashdash else err), r3)
       | (None, r3) \<Rightarrow>
           (case readNode lx fuel r3 of
              None \<Rightarrow> None
            | Some (node, Some err, r4) \<Rightarrow> Some (nodes, Some err, r4)
            | Some (node, None, r4) \<Rightarrow> readNodes_loop lx fuel r4 nodes))"
proof -
  have stay: "readUntilSignificant lx rn False = (None, rn)"
    using inp assms(1) by (intro readUntilSignificant_stays [where c = "CHR ''/''"]) auto
  have pk: "peekRune rn = (0x2F, None)"
    using peekRune_ascii [of rn "CHR ''/''"] inp by simp
  have sd: "isNext charsSlashDash rn = (True, None)"
    using inp by (simp add: charsSlashDash_def isNext_two)
  show ?thesis
    apply (subst readNodes_loop.simps)
    apply (simp only: stay pk sd prod.case option.case Let_def simp_thms if_True if_False)
    apply (simp add: assms(2) cong: option.case_cong_weak prod.case_cong_weak del: readNode.simps)
    done
qed

lemma peekRune_Cons: "input r = c # cs \<Longrightarrow> peekRune r = (fst (DecodeRune (c # cs)), None)"
  by (cases "DecodeRune (c # cs)") (simp add: peekRune_def ReadRune_def)

lemma isNext_true_iff:
  "isNext xs r = (True, None) \<longleftrightarrow> length xs \<le> length (input r) \<and> take (length xs) (input r) = xs"
  by (auto simp: isNext_def peekBytes_def)

lemma skipUntilNewLine_to_line_end:
  assumes lf: "isNewLine lx 0x0A"
    and nl: "nl = [CHR 0x0A] \<or> nl = charsCRLF"
  shows "breakFree lx body (nl @ rest) \<Longrightarrow> input r = body @ nl @ rest \<Longrightarrow>
         fst (skipUntilNewLine lx True r) = None
         \<and> input (snd (skipUntilNewLine lx True r)) = rest"
proof (induction body arbitrary: r)
  case Nil
  from nl show ?case
  proof
    assume n: "nl = [CHR 0x0A]"
    with Nil have inp: "input r = CHR 0x0A # rest" by simp
    have no: "isNext charsCRLF r \<noteq> (True, None)"
      by (simp add: isNext_true_iff charsCRLF_def inp)
    have pk: "peekRune r = (0x0A, None)"
      using peekRune_ascii [OF inp] by simp
    have "skipUntilNewLine lx True r = (None, discardByte r)"
      using skipUntilNewLine_break [of r lx True] no pk lf by simp
    then show ?thesis
      by (simp add: input_discardByte inp)
  next
    assume n: "nl = charsCRLF"
    with Nil have inp: "input r = CHR 0x0D # CHR 0x0A # rest"
      by (simp add: charsCRLF_def)
    have "isNext charsCRLF r = (True, None)"
      unfolding charsCRLF_def using inp by (rule isNext_two)
    then have "skipUntilNewLine lx True r = (None, discardBytes 2 r)"
      by (simp add: skipUntilNewLine_crlf)
    then show ?thesis
      by (simp add: input_discardBytes inp)
  qed
next
  case (Cons b bs)
  have inp: "input r = b # (bs @ nl @ rest)"
    using Cons.prems(2) by simp
  have no: "isNext charsCRLF r \<noteq> (True, None)"
    using Cons.prems(1) by (simp add: isNext_true_iff inp charsCRLF_def)
  have pk: "peekRune r = (fst (DecodeRune (b # bs @ nl @ rest)), None)"
    using peekRune_Cons [OF inp] by simp
  have nn: "\<not> isNewLine lx (fst (peekRune r))"
    using Cons.prems(1) pk by simp
  have step: "skipUntilNewLine lx True r = skipUntilNewLine lx True (discardByte r)"
    using no pk nn by (intro skipUntilNewLine_step) simp_all
  have "input (discardByte r) = bs @ nl @ rest"
    by (simp add: input_discardByte inp)
  with Cons.IH [of "discardByte r"] Cons.prems(1) show ?case
    by (simp add: step)
qed

section \<open>The claims\<close>

text \<open>
  C1. The document \<^verbatim>\<open>node 1 key="val" { child; }\<close> parses, with ten turns of the
  loops or more, to one node named \<open>node\<close> whose arguments are the integer 1 alone, whose
  properties bind \<open>key\<close> to the string \<open>val\<close> and nothing else, and whose children are
  one node \<open>child\<close> without arguments, properties or children. The scanners are the lexer
  after the spec.
\<close>

theorem C1_round_trip:
  "readNodes spec_lexer (10 + k)
     (wrapReader (''node 1 key='' @ [CHR 0x22] @ ''val'' @ [CHR 0x22] @ '' { child; }'')) =
   Some ([Node None ''node'' [NewIntegerValue 1 None]
            (Map.empty(''key'' \<mapsto> NewStringValue ''val'' None))
            [Node None ''child'' [] Map.empty []]],
         None,
         \<lparr>input = [], line = 1, pos = 28, depth = 0\<rparr>)"
  unfolding fuel10 by (simp add: reader_eval loop_eval lexer_eval node_eval cong: prod.case_cong_weak if_weak_cong)

text \<open>
  C2. After a children block \<^verbatim>\<open>readNode\<close> discards one byte more than the closing
  brace, which \<^verbatim>\<open>readNodes\<close> has consumed already. In \<^verbatim>\<open>a { b; }\<close>, line feed,
  \<^verbatim>\<open>c\<close>, line feed, the line feed after the brace is lost, \<open>c\<close> is read as an argument of
  \<open>a\<close> and the parse fails; in \<^verbatim>\<open>a { b; }1\<close>, line feed, the argument 1 is lost.
\<close>

theorem C2_byte_after_children_block_is_lost:
  "readNodes spec_lexer (10 + k)
     (wrapReader (''a { b; }'' @ [CHR 0x0A] @ ''c'' @ [CHR 0x0A])) =
   Some ([], Some errUnexpectedBareIdentifier,
         \<lparr>input = [CHR 0x0A], line = 2, pos = 1, depth = 0\<rparr>)
   \<and> readNodes spec_lexer (10 + k) (wrapReader (''a { b; }1'' @ [CHR 0x0A])) =
   Some ([Node None ''a'' [] Map.empty [Node None ''b'' [] Map.empty []]], None,
         \<lparr>input = [], line = 2, pos = 0, depth = 0\<rparr>)"
  unfolding fuel10 by (simp add: reader_eval loop_eval lexer_eval node_eval cong: prod.case_cong_weak if_weak_cong)

text \<open>
  C3. A document whose last node starts at the last byte does not parse: \<^verbatim>\<open>readNodes\<close>
  looks two bytes ahead for a slashdash, and returns the \<^verbatim>\<open>io.EOF\<close> of that look-ahead.
  The document \<^verbatim>\<open>a\<close> gives no node and the error; \<^verbatim>\<open>a\<close>, line feed, \<^verbatim>\<open>b\<close> gives
  the node \<open>a\<close> and the error, with \<open>b\<close> unread. The document \<^verbatim>\<open>ab\<close> parses.
\<close>

theorem C3_final_node_of_one_byte:
  "readNodes spec_lexer (10 + k) (wrapReader ''a'') = Some ([], Some EOF, wrapReader ''a'')
   \<and> readNodes spec_lexer (10 + k) (wrapReader (''a'' @ [CHR 0x0A] @ ''b'')) =
       Some ([Node None ''a'' [] Map.empty []], Some EOF,
             \<lparr>input = ''b'', line = 2, pos = 0, depth = 0\<rparr>)
   \<and> readNodes spec_lexer (10 + k) (wrapReader ''ab'') =
       Some ([Node None ''ab'' [] Map.empty []], None,
             \<lparr>input = [], line = 1, pos = 2, depth = 0\<rparr>)"
  unfolding fuel10 by (simp add: reader_eval loop_eval lexer_eval node_eval cong: prod.case_cong_weak if_weak_cong)

text \<open>
  C4. A block comment that the end of input cuts short does not fail the parse at depth
  0: the document \<^verbatim>\<open>/* abc\<close> parses to no node and no error, and \<^verbatim>\<open>a /* c\<close>, line
  feed, parses to the node \<open>a\<close>. Inside a children block the same comment does fail the
  parse.
\<close>

theorem C4_unterminated_block_comment_accepted:
  "readNodes spec_lexer (10 + k) (wrapReader ''/* abc'') =
     Some ([], None, \<lparr>input = ''c'', line = 1, pos = 5, depth = 0\<rparr>)
   \<and> readNodes spec_lexer (10 + k) (wrapReader (''a /* c'' @ [CHR 0x0A])) =
     Some ([Node None ''a'' [] Map.empty []], None,
           \<lparr>input = [], line = 2, pos = 0, depth = 0\<rparr>)
   \<and> readNodes spec_lexer (10 + k) (wrapReader ''a { /* c'') =
     Some ([], Some EOF, \<lparr>input = ''c'', line = 1, pos = 7, depth = 1\<rparr>)"
  unfolding fuel10 by (simp add: reader_eval loop_eval lexer_eval node_eval cong: prod.case_cong_weak if_weak_cong)

text \<open>
  C5. On the document \<^verbatim>\<open>}\<close> the reader stands at column 0 when \<^verbatim>\<open>readNodes\<close> sees the
  brace that fails the parse; \<^verbatim>\<open>readNodes\<close> then discards the brace before it returns,
  so the column the caller gets with the error is 1. On \<^verbatim>\<open>;\<close> nothing is discarded and
  the column is 0.
\<close>

theorem C5_position_after_discard:
  "readUntilSignificant spec_lexer (wrapReader ''}'') False = (None, wrapReader ''}'')
   \<and> peekRune (wrapReader ''}'') = (0x7D, None)
   \<and> pos (wrapReader ''}'') = 0
   \<and> Parse spec_lexer (10 + k) ''}'' =
       Some (Inl \<lparr>cause = errUnexpectedRightBracket, atLine = 1, atColumn = 1\<rparr>)
   \<and> Parse spec_lexer (10 + k) '';'' =
       Some (Inl \<lparr>cause = errUnexpectedSemicolon, atLine = 1, atColumn = 0\<rparr>)"
  unfolding fuel10 Parse_def by (simp add: reader_eval loop_eval lexer_eval node_eval cong: prod.case_cong_weak if_weak_cong)

text \<open>
  C6. On a carriage return followed by a rune that is not a line feed, \<^verbatim>\<open>readRune\<close>
  returns the carriage return and consumes the rune after it as well: of the stream
  carriage return, \<^verbatim>\<open>a\<close> nothing is left. On carriage return, line feed, \<^verbatim>\<open>a\<close> it
  leaves the line feed, and the two calls together count one line.
\<close>

theorem C6_readRune_after_carriage_return:
  "readRune spec_lexer (wrapReader [CHR 0x0D, CHR ''a'']) =
     (0x0D, None, \<lparr>input = [], line = 2, pos = 0, depth = 0\<rparr>)
   \<and> readRune spec_lexer (wrapReader [CHR 0x0D, CHR 0x0A, CHR ''a'']) =
     (0x0D, None, \<lparr>input = [CHR 0x0A, CHR ''a''], line = 1, pos = 0, depth = 0\<rparr>)
   \<and> readRune spec_lexer \<lparr>input = [CHR 0x0A, CHR ''a''], line = 1, pos = 0, depth = 0\<rparr> =
     (0x0A, None, \<lparr>input = ''a'', line = 2, pos = 0, depth = 0\<rparr>)"
  by (simp add: reader_eval lexer_eval cong: prod.case_cong_weak if_weak_cong)

text \<open>
  C7. In \<^verbatim>\<open>readArgOrProp\<close>, when there is no type hint and \<^verbatim>\<open>readIdentifier\<close> in the
  mode \<open>stopModeEquals\<close> has read an identifier: if the end of input or a valid
  terminator follows, a quoted identifier becomes a plain string argument of the node (of
  no node when the unit is discarded) and the call succeeds, and a bare identifier fails
  the call with \<open>errUnexpectedBareIdentifier\<close>; if \<^verbatim>\<open>=\<close> follows and is no terminator,
  that byte is consumed and the value read after it is stored as the property of that
  key. The lexer is any lexer.
\<close>

theorem C7_identifier_then_terminator_or_equals:
  assumes hint: "readMaybeTypeHint lx r = (None, None, r1)"
    and ident: "readIdentifier lx stopModeEquals r1 = (i, None, quoted, r2)"
  shows "(atValueEnd lx r2 \<and> quoted \<longrightarrow>
            readArgOrProp lx r dest discard =
              (None, r2, if discard then dest else AddArg dest (NewStringValue i None)))
       \<and> (atValueEnd lx r2 \<and> \<not> quoted \<longrightarrow>
            readArgOrProp lx r dest discard = (Some errUnexpectedBareIdentifier, r2, dest))
       \<and> (\<not> atValueEnd lx r2 \<and> peekRune r2 = (0x3D, None)
            \<and> readValue lx (discardByte r2) = (v, None, r3) \<longrightarrow>
            readArgOrProp lx r dest discard =
              (None, r3, if discard then dest else SetPropValue dest i v)
            \<and> input (discardByte r2) = tl (input r2))"
proof -
  obtain ch perr where pk: "peekRune r2 = (ch, perr)"
    by (cases "peekRune r2")
  have perr: "perr = None \<or> perr = Some EOF"
    using pk by (auto simp: peekRune_def split: option.splits)
  show ?thesis
    using hint ident pk perr
    by (auto simp: readArgOrProp_def atValueEnd_def AddArg_def AddArgValue_def
        input_discardByte)
qed

text \<open>C7 at the lexer after the spec: a quoted identifier before a space, a bare one
  before \<^verbatim>\<open>;\<close>, and the property \<^verbatim>\<open>k=1\<close>.\<close>

theorem C7_witness:
  "readArgOrProp spec_lexer (wrapReader ([CHR 0x22] @ ''q'' @ [CHR 0x22] @ '' '')) (NewNode ''n'') False =
     (None, \<lparr>input = '' '', line = 1, pos = 3, depth = 0\<rparr>,
      Node None ''n'' [NewStringValue ''q'' None] Map.empty [])
   \<and> readArgOrProp spec_lexer (wrapReader ''abc;'') (NewNode ''n'') False =
     (Some errUnexpectedBareIdentifier, \<lparr>input = '';'', line = 1, pos = 3, depth = 0\<rparr>,
      NewNode ''n'')
   \<and> readArgOrProp spec_lexer (wrapReader ''k=1'') (NewNode ''n'') False =
     (None, \<lparr>input = [], line = 1, pos = 3, depth = 0\<rparr>,
      Node None ''n'' [] (Map.empty(''k'' \<mapsto> NewIntegerValue 1 None)) [])"
proof -
  let ?q = "wrapReader ([CHR 0x22] @ ''q'' @ [CHR 0x22] @ '' '')"
  let ?q2 = "\<lparr>input = '' '', line = 1, pos = 3, depth = 0\<rparr>"
  have q1: "readMaybeTypeHint spec_lexer ?q = (None, None, ?q)"
    by (simp add: reader_eval lexer_eval)
  have q2: "readIdentifier spec_lexer stopModeEquals ?q = (''q'', None, True, ?q2)"
    by (simp add: reader_eval loop_eval lexer_eval cong: prod.case_cong_weak if_weak_cong)
  have q3: "atValueEnd spec_lexer ?q2"
    by (simp add: atValueEnd_def reader_eval lexer_eval)
  have a: "readArgOrProp spec_lexer ?q (NewNode ''n'') False =
      (None, ?q2, AddArg (NewNode ''n'') (NewStringValue ''q'' None))"
    using C7_identifier_then_terminator_or_equals [OF q1 q2, where dest = "NewNode ''n''" and discard = False] q3
    by simp
  let ?b = "wrapReader ''abc;''"
  let ?b2 = "\<lparr>input = '';'', line = 1, pos = 3, depth = 0\<rparr>"
  have b1: "readMaybeTypeHint spec_lexer ?b = (None, None, ?b)"
    by (simp add: reader_eval lexer_eval)
  have b2: "readIdentifier spec_lexer stopModeEquals ?b = (''abc'', None, False, ?b2)"
    by (simp add: reader_eval loop_eval lexer_eval cong: prod.case_cong_weak if_weak_cong)
  have b3: "atValueEnd spec_lexer ?b2"
    by (simp add: atValueEnd_def reader_eval lexer_eval)
  have b: "readArgOrProp spec_lexer ?b (NewNode ''n'') False =
      (Some errUnexpectedBareIdentifier, ?b2, NewNode ''n'')"
    using C7_identifier_then_terminator_or_equals [OF b1 b2, where dest = "NewNode ''n''" and discard = False] b3
    by simp
  let ?k = "wrapReader ''k=1''"
  let ?k2 = "\<lparr>input = ''=1'', line = 1, pos = 1, depth = 0\<rparr>"
  let ?k3 = "\<lparr>input = [], line = 1, pos = 3, depth = 0\<rparr>"
  have k1: "readMaybeTypeHint spec_lexer ?k = (None, None, ?k)"
    by (simp add: reader_eval lexer_eval)
  have k2: "readIdentifier spec_lexer stopModeEquals ?k = (''k'', None, False, ?k2)"
    by (simp add: reader_eval loop_eval lexer_eval cong: prod.case_cong_weak if_weak_cong)
  have k3: "\<not> atValueEnd spec_lexer ?k2" "peekRune ?k2 = (0x3D, None)"
    by (simp_all add: atValueEnd_def reader_eval lexer_eval)
  have k4: "readValue spec_lexer (discardByte ?k2) = (NewIntegerValue 1 None, None, ?k3)"
    by (simp add: reader_eval loop_eval lexer_eval node_eval cong: prod.case_cong_weak if_weak_cong)
  have k: "readArgOrProp spec_lexer ?k (NewNode ''n'') False =
      (None, ?k3, SetPropValue (NewNode ''n'') ''k'' (NewIntegerValue 1 None))"
    using C7_identifier_then_terminator_or_equals [OF k1 k2, where dest = "NewNode ''n''" and discard = False
        and v = "NewIntegerValue 1 None" and ?r3.0 = ?k3] k3 k4
    by simp
  show ?thesis
    using a b k by (simp add: AddArg_def SetPropValue_def NewNode_def)
qed

text \<open>
  C8. A second backslash while a line continuation is pending is accepted: inside a node,
  backslash, backslash, line feed is skipped like one line continuation, and the document
  \<^verbatim>\<open>a \\\<close>, line feed, \<^verbatim>\<open>1\<close>, line feed parses to the node \<open>a\<close> with the argument 1.
  A backslash followed by a significant token is refused.
\<close>

theorem C8_second_backslash_accepted:
  "readUntilSignificant spec_lexer (wrapReader [CHR 0x5C, CHR 0x5C, CHR 0x0A, CHR ''1'']) True =
     (None, \<lparr>input = ''1'', line = 2, pos = 0, depth = 0\<rparr>)
   \<and> readNodes spec_lexer (10 + k)
       (wrapReader (''a '' @ [CHR 0x5C, CHR 0x5C, CHR 0x0A] @ ''1'' @ [CHR 0x0A])) =
     Some ([Node None ''a'' [NewIntegerValue 1 None] Map.empty []], None,
           \<lparr>input = [], line = 3, pos = 0, depth = 0\<rparr>)
   \<and> readUntilSignificant spec_lexer (wrapReader [CHR 0x5C, CHR ''1'']) True =
     (Some errSignificantInCont, \<lparr>input = ''1'', line = 1, pos = 1, depth = 0\<rparr>)"
  unfolding fuel10 by (simp add: reader_eval loop_eval lexer_eval node_eval cong: prod.case_cong_weak if_weak_cong)

text \<open>
  C9. A slashdash suppresses one unit and nothing of its parsing. An argument or a
  property read with the discard flag leaves the same error and the same reader as
  without it, and the node as it was. A children block after \<^verbatim>\<open>/-\<close> is parsed by the
  same call of \<^verbatim>\<open>readNodes\<close>, its error fails the node, and the loop goes on with the
  node unchanged. A node after \<^verbatim>\<open>/-\<close> is parsed by \<^verbatim>\<open>readNode\<close>, its error fails the
  document, and the loop goes on with the list of nodes unchanged. The lexer is any lexer
  for which \<^verbatim>\<open>/\<close> and \<^verbatim>\<open>{\<close> are neither whitespace nor line breaks.
\<close>

theorem C9_slashdash_suppresses_one_unit:
  assumes "\<not> isWhitespace lx 0x2F" and "\<not> isNewLine lx 0x2F"
    and "\<not> isWhitespace lx 0x7B" and "\<not> isNewLine lx 0x7B"
  shows "readArgOrProp lx r dest True =
           (case readArgOrProp lx r dest False of (err, r', dest') \<Rightarrow> (err, r', dest))
       \<and> (input rc = ''/-{'' @ s \<longrightarrow>
            readNode_loop lx (Suc fuel) rc node =
              (case readNodes lx fuel
                      ((discardByte (discardBytes 2 rc))\<lparr>depth := depth rc + 1\<rparr>) of
                 None \<Rightarrow> None
               | Some (children, Some err, r6) \<Rightarrow> Some (node, Some err, r6)
               | Some (children, None, r6) \<Rightarrow>
                   readNode_loop lx fuel (discardByte (r6\<lparr>depth := depth r6 - 1\<rparr>)) node))
       \<and> (input rn = ''/-'' @ t \<longrightarrow>
            readNodes_loop lx (Suc fuel) rn nodes =
              (case readUntilSignificant lx (discardBytes 2 rn) True of
                 (Some err, r3) \<Rightarrow>
                   Some (nodes, Some (if err = EOF then errUnexpectedSlashdash else err), r3)
               | (None, r3) \<Rightarrow>
                   (case readNode lx fuel r3 of
                      None \<Rightarrow> None
                    | Some (node, Some err, r4) \<Rightarrow> Some (nodes, Some err, r4)
                    | Some (node, None, r4) \<Rightarrow> readNodes_loop lx fuel r4 nodes)))"
  using assms readArgOrProp_discard [of lx r dest]
    readNode_loop_slashdash_children [of lx rc s fuel node]
    readNodes_loop_slashdash_node [of lx rn t fuel nodes]
  by blast


text \<open>C9 at the lexer after the spec: a suppressed argument, a suppressed children
  block, a suppressed node before a node that is kept, and a suppressed node with a syntax
  error.\<close>

theorem C9_witness:
  "readArgOrProp spec_lexer (wrapReader ''1 '') (NewNode ''n'') True =
     (None, \<lparr>input = '' '', line = 1, pos = 1, depth = 0\<rparr>, NewNode ''n'')
   \<and> readNode_loop spec_lexer (Suc (Suc (Suc (Suc (Suc (Suc 0))))))
         (wrapReader (''/-{ c; }'' @ [CHR 0x0A])) (NewNode ''n'') =
     Some (NewNode ''n'', None, \<lparr>input = [], line = 2, pos = 0, depth = 0\<rparr>)
   \<and> readNodes_loop spec_lexer (Suc (Suc (Suc (Suc (Suc (Suc 0))))))
         (wrapReader (''/-a 1'' @ [CHR 0x0A] @ ''b 2'' @ [CHR 0x0A])) [] =
     Some ([Node None ''b'' [NewIntegerValue 2 None] Map.empty []], None,
           \<lparr>input = [], line = 3, pos = 0, depth = 0\<rparr>)
   \<and> readNodes spec_lexer (Suc (Suc (Suc (Suc (Suc (Suc 0))))))
         (wrapReader (''/-a '' @ [CHR 0x22] @ ''x'' @ [CHR 0x22] @ ''y'' @ [CHR 0x0A])) =
     Some ([], Some errUnexpectedTokenAfterIdentifier,
           \<lparr>input = ''y'' @ [CHR 0x0A], line = 1, pos = 7, depth = 0\<rparr>)"
proof -
  have cls: "\<not> isWhitespace spec_lexer 0x2F" "\<not> isNewLine spec_lexer 0x2F"
    "\<not> isWhitespace spec_lexer 0x7B" "\<not> isNewLine spec_lexer 0x7B"
    by (simp_all add: lexer_eval)
  note inst = C9_slashdash_suppresses_one_unit [OF cls,
      where r = "wrapReader ''1 ''" and dest = "NewNode ''n''"
        and rc = "wrapReader (''/-{ c; }'' @ [CHR 0x0A])" and s = "'' c; }'' @ [CHR 0x0A]"
        and fuel = "Suc (Suc (Suc (Suc (Suc 0))))" and node = "NewNode ''n''"
        and rn = "wrapReader (''/-a 1'' @ [CHR 0x0A] @ ''b 2'' @ [CHR 0x0A])"
        and t = "''a 1'' @ [CHR 0x0A] @ ''b 2'' @ [CHR 0x0A]" and nodes = "[]"]
  have ic: "input (wrapReader (''/-{ c; }'' @ [CHR 0x0A])) = ''/-{'' @ '' c; }'' @ [CHR 0x0A]"
    and it: "input (wrapReader (''/-a 1'' @ [CHR 0x0A] @ ''b 2'' @ [CHR 0x0A])) =
        ''/-'' @ ''a 1'' @ [CHR 0x0A] @ ''b 2'' @ [CHR 0x0A]"
    by (simp_all add: wrapReader_def)
  note arg = inst [THEN conjunct1]
  note children = inst [THEN conjunct2, THEN conjunct1, rule_format, OF ic]
  note node = inst [THEN conjunct2, THEN conjunct2, rule_format, OF it]
  have a: "readArgOrProp spec_lexer (wrapReader ''1 '') (NewNode ''n'') True =
     (None, \<lparr>input = '' '', line = 1, pos = 1, depth = 0\<rparr>, NewNode ''n'')"
    by (subst arg)
      (simp add: reader_eval loop_eval lexer_eval node_eval
        cong: prod.case_cong_weak if_weak_cong)
  have b: "readNode_loop spec_lexer (Suc (Suc (Suc (Suc (Suc (Suc 0))))))
         (wrapReader (''/-{ c; }'' @ [CHR 0x0A])) (NewNode ''n'') =
     Some (NewNode ''n'', None, \<lparr>input = [], line = 2, pos = 0, depth = 0\<rparr>)"
    by (subst children)
      (simp add: reader_eval loop_eval lexer_eval node_eval
        cong: prod.case_cong_weak if_weak_cong)
  have c: "readNodes_loop spec_lexer (Suc (Suc (Suc (Suc (Suc (Suc 0))))))
         (wrapReader (''/-a 1'' @ [CHR 0x0A] @ ''b 2'' @ [CHR 0x0A])) [] =
     Some ([Node None ''b'' [NewIntegerValue 2 None] Map.empty []], None,
           \<lparr>input = [], line = 3, pos = 0, depth = 0\<rparr>)"
    by (subst node)
      (simp add: reader_eval loop_eval lexer_eval node_eval
        cong: prod.case_cong_weak if_weak_cong)
  have d: "readNodes spec_lexer (Suc (Suc (Suc (Suc (Suc (Suc 0))))))
         (wrapReader (''/-a '' @ [CHR 0x22] @ ''x'' @ [CHR 0x22] @ ''y'' @ [CHR 0x0A])) =
     Some ([], Some errUnexpectedTokenAfterIdentifier,
           \<lparr>input = ''y'' @ [CHR 0x0A], line = 1, pos = 7, depth = 0\<rparr>)"
    by (simp add: reader_eval loop_eval lexer_eval node_eval
        cong: prod.case_cong_weak if_weak_cong)
  from a b c d show ?thesis
    by (intro conjI)
qed

text \<open>
  C10. A line comment inside a node takes its line break with it: on \<^verbatim>\<open>//\<close>, a text
  without line break, and a line feed or a carriage return and line feed pair,
  \<^verbatim>\<open>readUntilSignificant\<close> succeeds and leaves the reader on the first byte of the next
  line. The terminator check of \<^verbatim>\<open>readNode\<close> never sees that line break: when the next
  line starts with a significant byte, the turn of the loop taken at the comment is the
  turn taken at the start of the next line. The lexer is any lexer for which \<^verbatim>\<open>/\<close> is
  not whitespace and the line feed is a line break.
\<close>

theorem C10_line_comment_takes_the_line_break:
  assumes "\<not> isWhitespace lx 0x2F" and "isNewLine lx 0x0A"
    and "nl = [CHR 0x0A] \<or> nl = charsCRLF"
    and "breakFree lx body (nl @ rest)"
    and "input r = ''//'' @ body @ nl @ rest"
  shows "fst (readUntilSignificant lx r insideNode) = None
       \<and> input (snd (readUntilSignificant lx r insideNode)) = rest
       \<and> (readUntilSignificant lx (snd (readUntilSignificant lx r True)) True =
              (None, snd (readUntilSignificant lx r True)) \<longrightarrow>
            readNode_loop lx (Suc fuel) r node =
              readNode_loop lx (Suc fuel) (snd (readUntilSignificant lx r True)) node)"
proof -
  have inp: "input r = CHR ''/'' # CHR ''/'' # (body @ nl @ rest)"
    using assms(5) by simp
  have pk: "peekRune r = (0x2F, None)"
    using peekRune_ascii [OF inp] by simp
  have lc: "isNext charsStartComment r = (True, None)"
    unfolding charsStartComment_def using inp by (simp add: isNext_two)
  have rus: "readUntilSignificant lx r b = skipUntilNewLine lx True (discardBytes 2 r)" for b
    unfolding readUntilSignificant_def
    using pk lc assms(1) by (intro outer_line_comment) simp_all
  have "input (discardBytes 2 r) = body @ nl @ rest"
    by (simp add: input_discardBytes inp)
  from skipUntilNewLine_to_line_end [OF assms(2,3,4) this]
  have skip: "fst (skipUntilNewLine lx True (discardBytes 2 r)) = None"
    "input (snd (skipUntilNewLine lx True (discardBytes 2 r))) = rest"
    by simp_all
  let ?r1 = "snd (skipUntilNewLine lx True (discardBytes 2 r))"
  have res: "readUntilSignificant lx r True = (None, ?r1)"
    using skip(1) by (simp add: rus prod_eq_iff)
  have turn: "readNode_loop lx (Suc fuel) r node = readNode_loop lx (Suc fuel) ?r1 node"
    if stay: "readUntilSignificant lx ?r1 True = (None, ?r1)"
    by (simp only: readNode_loop.simps(2) [of lx fuel r node]
        readNode_loop.simps(2) [of lx fuel ?r1 node] res stay prod.case option.case)
  show ?thesis
    using skip turn by (simp add: rus)
qed

text \<open>C10 at the lexer after the spec: the node \<open>a\<close> with a comment on its line gets the
  argument of the next line.\<close>

theorem C10_witness:
  "fst (readUntilSignificant spec_lexer
          (wrapReader (''// c'' @ [CHR 0x0A] @ ''1'' @ [CHR 0x0A])) True) = None
   \<and> input (snd (readUntilSignificant spec_lexer
          (wrapReader (''// c'' @ [CHR 0x0A] @ ''1'' @ [CHR 0x0A])) True)) = ''1'' @ [CHR 0x0A]
   \<and> readNode_loop spec_lexer (Suc (Suc (Suc 0)))
         (wrapReader (''// c'' @ [CHR 0x0A] @ ''1'' @ [CHR 0x0A])) (NewNode ''a'') =
       Some (Node None ''a'' [NewIntegerValue 1 None] Map.empty [], None,
             \<lparr>input = [], line = 3, pos = 0, depth = 0\<rparr>)
   \<and> readNodes spec_lexer (Suc (Suc (Suc (Suc 0))))
         (wrapReader (''a // c'' @ [CHR 0x0A] @ ''1'' @ [CHR 0x0A])) =
       Some ([Node None ''a'' [NewIntegerValue 1 None] Map.empty []], None,
             \<lparr>input = [], line = 3, pos = 0, depth = 0\<rparr>)"
proof -
  let ?r = "wrapReader (''// c'' @ [CHR 0x0A] @ ''1'' @ [CHR 0x0A])"
  have h1: "\<not> isWhitespace spec_lexer 0x2F" and h2: "isNewLine spec_lexer 0x0A"
    by (simp_all add: lexer_eval)
  have h3: "[CHR 0x0A] = [CHR 0x0A] \<or> [CHR 0x0A] = charsCRLF"
    by simp
  have h4: "breakFree spec_lexer '' c'' ([CHR 0x0A] @ ''1'' @ [CHR 0x0A])"
    by (simp add: lexer_eval charsCRLF_def)
  have h5: "input ?r = ''//'' @ '' c'' @ [CHR 0x0A] @ ''1'' @ [CHR 0x0A]"
    by (simp add: wrapReader_def)
  note inst = C10_line_comment_takes_the_line_break [OF h1 h2 h3 h4 h5,
      where fuel = "Suc (Suc 0)" and node = "NewNode ''a''"]
  have res: "readUntilSignificant spec_lexer ?r True =
      (None, \<lparr>input = ''1'' @ [CHR 0x0A], line = 2, pos = 0, depth = 0\<rparr>)"
    by (simp add: reader_eval loop_eval lexer_eval cong: prod.case_cong_weak if_weak_cong)
  have stay: "readUntilSignificant spec_lexer (snd (readUntilSignificant spec_lexer ?r True)) True =
      (None, snd (readUntilSignificant spec_lexer ?r True))"
    unfolding res
    by (simp add: reader_eval loop_eval lexer_eval cong: prod.case_cong_weak if_weak_cong)
  note turn = inst [where insideNode = True, THEN conjunct2, THEN conjunct2, rule_format, OF stay]
  have c: "readNode_loop spec_lexer (Suc (Suc (Suc 0))) ?r (NewNode ''a'') =
       Some (Node None ''a'' [NewIntegerValue 1 None] Map.empty [], None,
             \<lparr>input = [], line = 3, pos = 0, depth = 0\<rparr>)"
    unfolding turn res
    by (simp add: reader_eval loop_eval lexer_eval node_eval
        cong: prod.case_cong_weak if_weak_cong)
  have d: "readNodes spec_lexer (Suc (Suc (Suc (Suc 0))))
         (wrapReader (''a // c'' @ [CHR 0x0A] @ ''1'' @ [CHR 0x0A])) =
       Some ([Node None ''a'' [NewIntegerValue 1 None] Map.empty []], None,
             \<lparr>input = [], line = 3, pos = 0, depth = 0\<rparr>)"
    by (simp add: reader_eval loop_eval lexer_eval node_eval
        cong: prod.case_cong_weak if_weak_cong)
  from inst [where insideNode = True, THEN conjunct1]
    inst [where insideNode = True, THEN conjunct2, THEN conjunct1] c d
  show ?thesis
    by (intro conjI)
qed

end
